theory Spec2Isabelle
  imports Complex_Main "HOL-Library.Monad_Syntax"
begin

section \<open>Common modelling conventions\<close>

text \<open>
  The two source files are \<^verbatim>\<open>src/splinechart/qsplineseries.cpp\<close> and
  \<^verbatim>\<open>src/axis/verticalaxis.cpp\<close>.

  \<^item> \<^verbatim>\<open>qreal\<close> (a C++ double) is modelled by \<open>real\<close>: the theorems are about the
    arithmetic the code writes down, not about rounding.
  \<^item> \<^verbatim>\<open>QVector\<close> and \<^verbatim>\<open>QList\<close> are lists. An element access outside the range
    (\<^verbatim>\<open>operator[]\<close>, \<^verbatim>\<open>at\<close>) trips a Qt assertion and is undefined in a release
    build; the model returns \<open>None\<close> there. A division whose divisor is zero
    has no real value (the double would be an infinity or a NaN); the model
    returns \<open>None\<close> there too. So a result \<open>Some r\<close> says that the run made
    no access out of range and no division by zero.
  \<^item> Member variables that the code mutates are passed in and returned.
\<close>

type_synonym qreal = real

definition get :: "'a list \<Rightarrow> nat \<Rightarrow> 'a option" where
  "get xs i = (if i < length xs then Some (xs ! i) else None)"

definition put :: "'a list \<Rightarrow> nat \<Rightarrow> 'a \<Rightarrow> 'a list option" where
  "put xs i v = (if i < length xs then Some (xs[i := v]) else None)"

text \<open>\<^verbatim>\<open>QVector::resize\<close>: the first elements are kept, new ones are default-constructed.\<close>

definition resize :: "'a \<Rightarrow> 'a list \<Rightarrow> nat \<Rightarrow> 'a list" where
  "resize d xs k = take k xs @ replicate (k - length xs) d"

definition qdiv :: "qreal \<Rightarrow> qreal \<Rightarrow> qreal option" where
  "qdiv a b = (if b = 0 then None else Some (a / b))"

record QPointF =
  xp :: qreal
  yp :: qreal

definition setX :: "QPointF list \<Rightarrow> nat \<Rightarrow> qreal \<Rightarrow> QPointF list option" where
  "setX m j v = (if j < length m then Some (m[j := (m ! j)\<lparr>xp := v\<rparr>]) else None)"

definition setY :: "QPointF list \<Rightarrow> nat \<Rightarrow> qreal \<Rightarrow> QPointF list option" where
  "setY m j v = (if j < length m then Some (m[j := (m ! j)\<lparr>yp := v\<rparr>]) else None)"


section \<open>Spline series: Bezier control points\<close>

subsection \<open>\<^verbatim>\<open>QSplineSeriesPrivate::firstControlPoints\<close>\<close>

text \<open>
  The state of the forward loop (lines 204-210) is \<open>(b, result, temp)\<close>. Inside the
  loop \<open>1 \<le> i < count\<close>, so the C++ \<^verbatim>\<open>int\<close> expressions \<^verbatim>\<open>count - 1\<close> and
  \<^verbatim>\<open>i - 1\<close> are the natural-number differences.
\<close>

type_synonym fcp_state = "qreal \<times> qreal list \<times> qreal list"

definition fcp_forward_body :: "qreal list \<Rightarrow> nat \<Rightarrow> nat \<Rightarrow> fcp_state \<Rightarrow> fcp_state option" where
  "fcp_forward_body vector count i st = (case st of (b, result, temp) \<Rightarrow> do {
      t \<leftarrow> qdiv 1 b;
      temp \<leftarrow> put temp i t;
      ti \<leftarrow> get temp i;
      let b = (if i < count - 1 then 4.0 else 3.5) - ti;
      vi \<leftarrow> get vector i;
      rp \<leftarrow> get result (i - 1);
      q \<leftarrow> qdiv (vi - rp) b;
      result \<leftarrow> put result i q;
      Some (b, result, temp)
    })"

function fcp_forward :: "qreal list \<Rightarrow> nat \<Rightarrow> nat \<Rightarrow> fcp_state \<Rightarrow> fcp_state option" where
  "fcp_forward vector count i st =
     (if i < count then
        (case fcp_forward_body vector count i st of
           None \<Rightarrow> None
         | Some st' \<Rightarrow> fcp_forward vector count (i + 1) st')
      else Some st)"
  by pat_completeness auto
termination
  by (relation "measure (\<lambda>(vector, count, i, st). count - i)") auto

text \<open>The back-substitution loop (lines 212-213).\<close>

definition fcp_backward_body :: "qreal list \<Rightarrow> nat \<Rightarrow> nat \<Rightarrow> qreal list \<Rightarrow> qreal list option" where
  "fcp_backward_body temp count i result = do {
      t \<leftarrow> get temp (count - i);
      r1 \<leftarrow> get result (count - i);
      r0 \<leftarrow> get result (count - i - 1);
      put result (count - i - 1) (r0 - t * r1)
    }"

function fcp_backward :: "qreal list \<Rightarrow> nat \<Rightarrow> nat \<Rightarrow> qreal list \<Rightarrow> qreal list option" where
  "fcp_backward temp count i result =
     (if i < count then
        (case fcp_backward_body temp count i result of
           None \<Rightarrow> None
         | Some result' \<Rightarrow> fcp_backward temp count (i + 1) result')
      else Some result)"
  by pat_completeness auto
termination
  by (relation "measure (\<lambda>(temp, count, i, result). count - i)") auto

text \<open>
  The function body in two parts: lines 194-210 (set-up and forward elimination,
  leaving \<open>(b, result, temp)\<close>) and lines 212-215 (back-substitution and return).
\<close>

definition fcp_eliminate :: "qreal list \<Rightarrow> fcp_state option" where
  "fcp_eliminate vector = do {
      let count = length vector;
      let result = resize 0 [] count;
      v0 \<leftarrow> get vector 0;
      result \<leftarrow> put result 0 (v0 / 2.0);
      let temp = resize 0 [] count;
      temp \<leftarrow> put temp 0 0;
      let b = 2.0;
      fcp_forward vector count 1 (b, result, temp)
    }"

definition firstControlPoints :: "qreal list \<Rightarrow> qreal list option" where
  "firstControlPoints vector = do {
      (b, result, temp) \<leftarrow> fcp_eliminate vector;
      fcp_backward temp (length vector) 1 result
    }"

subsection \<open>\<^verbatim>\<open>QSplineSeriesPrivate::calculateControlPoints\<close>\<close>

text \<open>
  Lines 156-162 fill the right-hand side from the x coordinates and lines 166-171
  repeat the same statements with the y coordinates, on the same vector; the
  coordinate is the parameter \<open>c\<close> here.
\<close>

function rhs_loop :: "(QPointF \<Rightarrow> qreal) \<Rightarrow> QPointF list \<Rightarrow> nat \<Rightarrow> nat \<Rightarrow> qreal list \<Rightarrow> qreal list option" where
  "rhs_loop c points n i vector =
     (if i < n - 1 then
        (case do { p \<leftarrow> get points i; p' \<leftarrow> get points (i + 1);
                   put vector i (4 * c p + 2 * c p') } of
           None \<Rightarrow> None
         | Some vector' \<Rightarrow> rhs_loop c points n (i + 1) vector')
      else Some vector)"
  by pat_completeness auto
termination
  by (relation "measure (\<lambda>(c, points, n, i, vector). n - 1 - i)") auto

definition rhs_vector :: "(QPointF \<Rightarrow> qreal) \<Rightarrow> QPointF list \<Rightarrow> nat \<Rightarrow> qreal list \<Rightarrow> qreal list option" where
  "rhs_vector c points n vector = do {
      p0 \<leftarrow> get points 0;
      p1 \<leftarrow> get points 1;
      vector \<leftarrow> put vector 0 (c p0 + 2 * c p1);
      vector \<leftarrow> rhs_loop c points n 1 vector;
      pl \<leftarrow> get points (n - 1);
      pn \<leftarrow> get points n;
      put vector (n - 1) ((8 * c pl + c pn) / 2.0)
    }"

text \<open>The body of the last loop (lines 175-189), entered with \<open>i < n\<close>; it returns the new \<open>j\<close> too.\<close>

definition cp_body :: "QPointF list \<Rightarrow> nat \<Rightarrow> qreal list \<Rightarrow> qreal list \<Rightarrow> nat \<Rightarrow> nat \<Rightarrow> QPointF list
    \<Rightarrow> (nat \<times> QPointF list) option" where
  "cp_body points n xControl yControl i j m = do {
      xi \<leftarrow> get xControl i;
      m \<leftarrow> setX m j xi;
      yi \<leftarrow> get yControl i;
      m \<leftarrow> setY m j yi;
      let j = j + 1;
      m \<leftarrow> (if i < n - 1 then do {
              p \<leftarrow> get points (i + 1);
              xn \<leftarrow> get xControl (i + 1);
              m \<leftarrow> setX m j (2 * xp p - xn);
              p \<leftarrow> get points (i + 1);
              yn \<leftarrow> get yControl (i + 1);
              setY m j (2 * yp p - yn)
            } else do {
              p \<leftarrow> get points n;
              xl \<leftarrow> get xControl (n - 1);
              m \<leftarrow> setX m j ((xp p + xl) / 2);
              p \<leftarrow> get points n;
              yl \<leftarrow> get yControl (n - 1);
              setY m j ((yp p + yl) / 2)
            });
      Some (j, m)
    }"

function cp_loop :: "QPointF list \<Rightarrow> nat \<Rightarrow> qreal list \<Rightarrow> qreal list \<Rightarrow> nat \<Rightarrow> nat \<Rightarrow> QPointF list
    \<Rightarrow> QPointF list option" where
  "cp_loop points n xControl yControl i j m =
     (if i < n then
        (case cp_body points n xControl yControl i j m of
           None \<Rightarrow> None
         | Some (j', m') \<Rightarrow> cp_loop points n xControl yControl (i + 1) (j' + 1) m')
      else Some m)"
  by pat_completeness auto
termination
  by (relation "measure (\<lambda>(points, n, xControl, yControl, i, j, m). n - i)") auto

text \<open>
  \<^verbatim>\<open>int n = points.count() - 1\<close> is \<open>-1\<close> for an empty point list, and then
  \<^verbatim>\<open>vector.resize(n)\<close> fails; otherwise \<open>n\<close> is a natural number. The second
  argument is the member \<^verbatim>\<open>m_controlPoints\<close>, returned updated.
\<close>

definition calculateControlPoints :: "QPointF list \<Rightarrow> QPointF list \<Rightarrow> QPointF list option" where
  "calculateControlPoints points m_controlPoints =
     (if points = [] then None
      else let n = length points - 1 in
        if n = 1 then do {
          p0 \<leftarrow> get points 0;
          p1 \<leftarrow> get points 1;
          m \<leftarrow> setX m_controlPoints 0 ((2 * xp p0 + xp p1) / 3);
          m \<leftarrow> setY m 0 ((2 * yp p0 + yp p1) / 3);
          c0 \<leftarrow> get m 0;
          m \<leftarrow> setX m 1 (2 * xp c0 - xp p0);
          c0 \<leftarrow> get m 0;
          setY m 1 (2 * yp c0 - yp p0)
        } else do {
          let vector = resize 0 [] n;
          vector \<leftarrow> rhs_vector xp points n vector;
          xControl \<leftarrow> firstControlPoints vector;
          vector \<leftarrow> rhs_vector yp points n vector;
          yControl \<leftarrow> firstControlPoints vector;
          cp_loop points n xControl yControl 0 0 m_controlPoints
        })"

subsection \<open>\<^verbatim>\<open>QSplineSeriesPrivate::updateControlPoints\<close> and the signals connected to it\<close>

definition updateControlPoints :: "QPointF list \<Rightarrow> QPointF list \<Rightarrow> QPointF list option" where
  "updateControlPoints points m_controlPoints =
     (if length points > 1 then
        calculateControlPoints points
          (resize \<lparr>xp = 0, yp = 0\<rparr> m_controlPoints (2 * length points - 2))
      else Some m_controlPoints)"

text \<open>
  The constructor (lines 93-96) connects the four mutation signals of the series to
  the slot \<^verbatim>\<open>updateControlPoints\<close>. The series is its point list (already mutated
  when the signal is emitted) together with the stored control points.
\<close>

datatype signal = pointAdded int | pointRemoved int | pointReplaced int | pointsReplaced

record series =
  m_points :: "QPointF list"
  m_controlPoints :: "QPointF list"

fun emit :: "signal \<Rightarrow> series \<Rightarrow> series option" where
  "emit (pointAdded k) s =
     map_option (\<lambda>m. s\<lparr>m_controlPoints := m\<rparr>) (updateControlPoints (m_points s) (m_controlPoints s))"
| "emit (pointRemoved k) s =
     map_option (\<lambda>m. s\<lparr>m_controlPoints := m\<rparr>) (updateControlPoints (m_points s) (m_controlPoints s))"
| "emit (pointReplaced k) s =
     map_option (\<lambda>m. s\<lparr>m_controlPoints := m\<rparr>) (updateControlPoints (m_points s) (m_controlPoints s))"
| "emit pointsReplaced s =
     map_option (\<lambda>m. s\<lparr>m_controlPoints := m\<rparr>) (updateControlPoints (m_points s) (m_controlPoints s))"

subsection \<open>The linear system and the layout of the control-point buffer\<close>

text \<open>
  The buffer \<^verbatim>\<open>m_controlPoints\<close> holds the pair of segment \<open>i\<close> at the indices
  \<open>2 * i\<close> and \<open>2 * i + 1\<close> (the loop of lines 175-189 writes index \<open>j\<close>, then
  \<open>j + 1\<close>, with \<open>j = 2 * i\<close>).
\<close>

definition cp1 :: "QPointF list \<Rightarrow> nat \<Rightarrow> QPointF" where
  "cp1 cs i = cs ! (2 * i)"

definition cp2 :: "QPointF list \<Rightarrow> nat \<Rightarrow> QPointF" where
  "cp2 cs i = cs ! (2 * i + 1)"

text \<open>
  The right-hand side as the specification words it, for the coordinate \<open>c\<close> of the
  points \<open>P\<close> and \<open>n = length P - 1\<close> segments: \<open>b 0 = P0 + 2 P1\<close>,
  \<open>b i = 4 P i + 2 P (i + 1)\<close> for interior \<open>i\<close>, \<open>b (n - 1) = (8 P (n - 1) + P n) / 2\<close>.
\<close>

definition rhs_spec :: "(QPointF \<Rightarrow> qreal) \<Rightarrow> QPointF list \<Rightarrow> nat \<Rightarrow> qreal" where
  "rhs_spec c P i =
     (let n = length P - 1 in
      if i = 0 then c (P ! 0) + 2 * c (P ! 1)
      else if i < n - 1 then 4 * c (P ! i) + 2 * c (P ! (i + 1))
      else (8 * c (P ! (n - 1)) + c (P ! n)) / 2)"

text \<open>
  \<open>tridiagonal d n x b\<close>: the unknowns \<open>x 0, \<dots>, x (n - 1)\<close> satisfy the \<open>n \<ge> 2\<close>
  equations whose matrix has the diagonal \<open>2, 4, \<dots>, 4, d\<close> and the off-diagonals \<open>1\<close>,
  with the right-hand side \<open>b\<close>.
\<close>

definition tridiagonal :: "qreal \<Rightarrow> nat \<Rightarrow> (nat \<Rightarrow> qreal) \<Rightarrow> (nat \<Rightarrow> qreal) \<Rightarrow> bool" where
  "tridiagonal d n x b \<longleftrightarrow>
     2 * x 0 + x 1 = b 0 \<and>
     (\<forall>i\<in>{1..<n - 1}. x (i - 1) + 4 * x i + x (i + 1) = b i) \<and>
     x (n - 2) + d * x (n - 1) = b (n - 1)"

section \<open>Vertical axis: \<^verbatim>\<open>VerticalAxis::updateGeometry\<close>\<close>

subsection \<open>Geometry values and graphics items\<close>

text \<open>
  \<^verbatim>\<open>QRectF\<close> stores a corner and a size; the y axis of the scene points down, so
  \<^verbatim>\<open>bottom() = y + height\<close> is the larger coordinate. \<^verbatim>\<open>QRectF()\<close> is all zero.
\<close>

record QRectF =
  r_x :: qreal
  r_y :: qreal
  r_w :: qreal
  r_h :: qreal

definition rect_left :: "QRectF \<Rightarrow> qreal" where "rect_left r = r_x r"
definition rect_top :: "QRectF \<Rightarrow> qreal" where "rect_top r = r_y r"
definition rect_right :: "QRectF \<Rightarrow> qreal" where "rect_right r = r_x r + r_w r"
definition rect_bottom :: "QRectF \<Rightarrow> qreal" where "rect_bottom r = r_y r + r_h r"
definition rect_width :: "QRectF \<Rightarrow> qreal" where "rect_width r = r_w r"
definition rect_height :: "QRectF \<Rightarrow> qreal" where "rect_height r = r_h r"
definition rect_center :: "QRectF \<Rightarrow> QPointF" where
  "rect_center r = \<lparr>xp = r_x r + r_w r / 2, yp = r_y r + r_h r / 2\<rparr>"

definition null_rect :: QRectF where
  "null_rect = \<lparr>r_x = 0, r_y = 0, r_w = 0, r_h = 0\<rparr>"

record QLineF =
  l_x1 :: qreal
  l_y1 :: qreal
  l_x2 :: qreal
  l_y2 :: qreal

text \<open>The graphics items, with the attributes that \<^verbatim>\<open>updateGeometry\<close> reads or writes.\<close>

record LineItem =
  li_line :: QLineF
  li_visible :: bool

record TextItem =
  ti_html :: string
  ti_pos :: QPointF
  ti_origin :: QPointF
  ti_rotation :: qreal
  ti_visible :: bool

record RectItem =
  ri_rect :: QRectF
  ri_visible :: bool

text \<open>
  The item lists of the axis element. \<^verbatim>\<open>arrowItems\<close> holds the axis line at index 0
  and the tick of position \<open>i\<close> at index \<open>i + 1\<close>. The items of the lists are distinct
  objects, so an item is changed through its place in its list.
\<close>

record items =
  gridItems :: "LineItem list"
  labelItems :: "TextItem list"
  shadeItems :: "RectItem list"
  arrowItems :: "LineItem list"
  titleItem :: TextItem

datatype Alignment = AlignLeft | AlignRight | AlignTop | AlignBottom

type_synonym QFont = string

text \<open>
  What \<^verbatim>\<open>updateGeometry\<close> reads. The last three fields are code that is not part of
  the two source files and is taken as a parameter:
  \<^verbatim>\<open>ChartPresenter::truncatedText(font, text, angle, maxWidth, maxHeight, boundingRect)\<close>,
  which returns the text and sets the bounding rectangle,
  \<^verbatim>\<open>ChartPresenter::textBoundingRect(font, text)\<close>, and
  \<^verbatim>\<open>QGraphicsTextItem::boundingRect()\<close>.
\<close>

record axis =
  layout :: "qreal list"
  labelList :: "string list"
  axisGeometry :: QRectF
  gridGeometry :: QRectF
  alignment :: Alignment
  intervalAxis :: bool
  labelPadding :: qreal
  titlePadding :: qreal
  titleText :: string
  labelsFont :: QFont
  titleFont :: QFont
  labelsAngle :: qreal
  truncatedText :: "QFont \<Rightarrow> string \<Rightarrow> qreal \<Rightarrow> qreal \<Rightarrow> qreal \<Rightarrow> string \<times> QRectF"
  textBoundingRect :: "QFont \<Rightarrow> string \<Rightarrow> QRectF"
  itemBoundingRect :: "TextItem \<Rightarrow> QRectF"

subsection \<open>Before the loop: arrow and title (lines 61-94)\<close>

definition arrow_position :: "axis \<Rightarrow> LineItem \<Rightarrow> LineItem" where
  "arrow_position ax arrowItem =
     (let axisRect = axisGeometry ax; gridRect = gridGeometry ax in
      if alignment ax = AlignLeft then
        arrowItem\<lparr>li_line := \<lparr>l_x1 = rect_right axisRect, l_y1 = rect_top gridRect,
                               l_x2 = rect_right axisRect, l_y2 = rect_bottom gridRect\<rparr>\<rparr>
      else if alignment ax = AlignRight then
        arrowItem\<lparr>li_line := \<lparr>l_x1 = rect_left axisRect, l_y1 = rect_top gridRect,
                               l_x2 = rect_left axisRect, l_y2 = rect_bottom gridRect\<rparr>\<rparr>
      else arrowItem)"

text \<open>The title block returns the title item and \<^verbatim>\<open>availableSpace\<close>.\<close>

definition title_geometry :: "axis \<Rightarrow> TextItem \<Rightarrow> TextItem \<times> qreal" where
  "title_geometry ax title =
     (let axisRect = axisGeometry ax; gridRect = gridGeometry ax;
          availableSpace = rect_width axisRect - labelPadding ax in
      if titleText ax \<noteq> [] \<and> ti_visible title then
        let availableSpace = availableSpace - titlePadding ax * 2.0;
            minimumLabelWidth = rect_width (textBoundingRect ax (labelsFont ax) ''...'');
            titleSpace = availableSpace - minimumLabelWidth;
            title = title\<lparr>ti_html := fst (truncatedText ax (titleFont ax) (titleText ax) 90.0
                                            titleSpace (rect_height gridRect))\<rparr>;
            titleBoundingRect = itemBoundingRect ax title;
            center = \<lparr>xp = xp (rect_center gridRect) - xp (rect_center titleBoundingRect),
                      yp = yp (rect_center gridRect) - yp (rect_center titleBoundingRect)\<rparr>;
            title =
              (if alignment ax = AlignLeft then
                 title\<lparr>ti_pos := \<lparr>xp = rect_left axisRect - rect_width titleBoundingRect / 2.0
                                        + rect_height titleBoundingRect / 2.0 + titlePadding ax,
                                   yp = yp center\<rparr>\<rparr>
               else if alignment ax = AlignRight then
                 title\<lparr>ti_pos := \<lparr>xp = rect_right axisRect - rect_width titleBoundingRect / 2.0
                                        - rect_height titleBoundingRect / 2.0 - titlePadding ax,
                                   yp = yp center\<rparr>\<rparr>
               else title);
            title = title\<lparr>ti_origin := rect_center titleBoundingRect\<rparr>;
            title = title\<lparr>ti_rotation := 270\<rparr>
        in (title, availableSpace - rect_height titleBoundingRect)
      else (title, availableSpace))"

subsection \<open>The loop body, section by section (lines 96-185)\<close>

text \<open>Grid line (line 103).\<close>

definition grid_line :: "axis \<Rightarrow> qreal \<Rightarrow> LineItem \<Rightarrow> LineItem" where
  "grid_line ax y gridItem =
     gridItem\<lparr>li_line := \<lparr>l_x1 = rect_left (gridGeometry ax), l_y1 = y,
                           l_x2 = rect_right (gridGeometry ax), l_y2 = y\<rparr>\<rparr>"

text \<open>Label text wrapping (lines 105-116): the label item and \<^verbatim>\<open>boundingRect\<close>.\<close>

definition label_text :: "axis \<Rightarrow> qreal \<Rightarrow> string \<Rightarrow> TextItem \<Rightarrow> TextItem \<times> QRectF" where
  "label_text ax availableSpace text labelItem =
     (if text = [] then (labelItem\<lparr>ti_html := text\<rparr>, null_rect)
      else
        let labelHeight = (rect_height (axisGeometry ax) / real (length (layout ax)))
                            - (2 * labelPadding ax);
            tr = truncatedText ax (labelsFont ax) text (labelsAngle ax) availableSpace labelHeight
        in (labelItem\<lparr>ti_html := fst tr\<rparr>, snd tr))"

text \<open>
  Ticks and label position (lines 125-132). The two branches set the position of the
  label and the line of the tick; \<open>label_position\<close> is what they do to the label,
  \<open>tick_position\<close> what they do to the tick.
\<close>

definition label_position :: "axis \<Rightarrow> qreal \<Rightarrow> QRectF \<Rightarrow> qreal \<Rightarrow> TextItem \<Rightarrow> TextItem" where
  "label_position ax y rect widthDiff labelItem =
     (let axisRect = axisGeometry ax; center = rect_center rect in
      if alignment ax = AlignLeft then
        labelItem\<lparr>ti_pos := \<lparr>xp = rect_right axisRect - rect_width rect + (widthDiff / 2.0)
                                    - labelPadding ax,
                               yp = y - yp center\<rparr>\<rparr>
      else if alignment ax = AlignRight then
        labelItem\<lparr>ti_pos := \<lparr>xp = rect_left axisRect + labelPadding ax - (widthDiff / 2.0),
                               yp = y - yp center\<rparr>\<rparr>
      else labelItem)"

definition tick_position :: "axis \<Rightarrow> qreal \<Rightarrow> LineItem \<Rightarrow> LineItem" where
  "tick_position ax y tickItem =
     (let axisRect = axisGeometry ax in
      if alignment ax = AlignLeft then
        tickItem\<lparr>li_line := \<lparr>l_x1 = rect_right axisRect - labelPadding ax, l_y1 = y,
                              l_x2 = rect_right axisRect, l_y2 = y\<rparr>\<rparr>
      else if alignment ax = AlignRight then
        tickItem\<lparr>li_line := \<lparr>l_x1 = rect_left axisRect, l_y1 = y,
                              l_x2 = rect_left axisRect + labelPadding ax, l_y2 = y\<rparr>\<rparr>
      else tickItem)"

text \<open>
  Label in between (lines 134-148): the label item and \<^verbatim>\<open>forceHide\<close>. The read of
  \<^verbatim>\<open>layout[i + 1]\<close> is in range because \<open>i + 1 \<noteq> layout.size()\<close> and \<open>i < layout.size()\<close>.
\<close>

definition label_in_between ::
    "axis \<Rightarrow> nat \<Rightarrow> QRectF \<Rightarrow> QPointF \<Rightarrow> TextItem \<Rightarrow> (TextItem \<times> bool) option" where
  "label_in_between ax i boundingRect center labelItem =
     (let forceHide = False in
      if intervalAxis ax \<and> i + 1 \<noteq> length (layout ax) then do {
        y \<leftarrow> get (layout ax) i;
        y' \<leftarrow> get (layout ax) (i + 1);
        let lowerBound = min y (rect_bottom (gridGeometry ax));
        let upperBound = max y' (rect_top (gridGeometry ax));
        let delta = lowerBound - upperBound;
        if delta < rect_height boundingRect
            \<and> (lowerBound = rect_bottom (gridGeometry ax) \<or> upperBound = rect_top (gridGeometry ax))
            \<and> \<not> intervalAxis ax
        then Some (labelItem, True)
        else Some (labelItem\<lparr>ti_pos := \<lparr>xp = xp (ti_pos labelItem),
                                         yp = lowerBound - (delta / 2.0) - yp center\<rparr>\<rparr>, forceHide)
      } else Some (labelItem, forceHide))"

text \<open>
  Label overlap detection (lines 150-160): the label item and the running \<^verbatim>\<open>height\<close>.
  The comparisons are those of the code, made on real numbers; the code makes them on
  rounded doubles, so a sum that passes a bound by less than a rounding error can compare
  the other way there.
\<close>

definition label_overlap ::
    "axis \<Rightarrow> QRectF \<Rightarrow> qreal \<Rightarrow> bool \<Rightarrow> TextItem \<Rightarrow> qreal \<Rightarrow> TextItem \<times> qreal" where
  "label_overlap ax boundingRect heightDiff forceHide labelItem height =
     (if (yp (ti_pos labelItem) + rect_height boundingRect > height \<or> forceHide \<or>
          (yp (ti_pos labelItem) + (heightDiff / 2.0) - 1.0) > rect_bottom (axisGeometry ax) \<or>
          yp (ti_pos labelItem) + (heightDiff / 2.0) < (rect_top (axisGeometry ax) - 1.0))
         \<and> \<not> intervalAxis ax
      then (labelItem\<lparr>ti_visible := False\<rparr>, height)
      else (labelItem\<lparr>ti_visible := True\<rparr>, yp (ti_pos labelItem)))"

text \<open>
  Shades (lines 162-172). \<^verbatim>\<open>(i + 1) % 2\<close> is nonzero for even \<open>i\<close>; with \<open>i > 1\<close> the
  \<^verbatim>\<open>int\<close> expressions \<^verbatim>\<open>i / 2 - 1\<close> and \<^verbatim>\<open>i - 1\<close> are natural numbers.
\<close>

definition shade_rect :: "axis \<Rightarrow> qreal \<Rightarrow> qreal \<Rightarrow> RectItem \<Rightarrow> RectItem" where
  "shade_rect ax yprev y rectItem =
     (let gridRect = gridGeometry ax;
          lowerBound = min yprev (rect_bottom gridRect);
          upperBound = max y (rect_top gridRect);
          rectItem = rectItem\<lparr>ri_rect := \<lparr>r_x = rect_left gridRect, r_y = upperBound,
                                           r_w = rect_width gridRect, r_h = lowerBound - upperBound\<rparr>\<rparr>
      in if rect_height (ri_rect rectItem) \<le> 0.0
         then rectItem\<lparr>ri_visible := False\<rparr>
         else rectItem\<lparr>ri_visible := True\<rparr>)"

definition shades_step :: "axis \<Rightarrow> nat \<Rightarrow> RectItem list \<Rightarrow> RectItem list option" where
  "shades_step ax i shades =
     (if (i + 1) mod 2 \<noteq> 0 \<and> i > 1 then do {
        rectItem \<leftarrow> get shades (i div 2 - 1);
        yprev \<leftarrow> get (layout ax) (i - 1);
        y \<leftarrow> get (layout ax) i;
        put shades (i div 2 - 1) (shade_rect ax yprev y rectItem)
      } else Some shades)"

text \<open>Visibility of the grid line and of the tick (lines 174-183).\<close>

definition line_visibility :: "axis \<Rightarrow> LineItem \<Rightarrow> LineItem \<Rightarrow> LineItem \<times> LineItem" where
  "line_visibility ax gridItem tickItem =
     (let y = l_y1 (li_line gridItem) in
      if y < rect_top (gridGeometry ax) \<or> y > rect_bottom (gridGeometry ax)
      then (gridItem\<lparr>li_visible := False\<rparr>, tickItem\<lparr>li_visible := False\<rparr>)
      else (gridItem\<lparr>li_visible := True\<rparr>, tickItem\<lparr>li_visible := True\<rparr>))"

text \<open>
  One iteration. The three items are fetched first (lines 98-100), worked on, and
  stored back in their lists; the state of the loop is the items and \<^verbatim>\<open>height\<close>.
\<close>

definition tick_body :: "axis \<Rightarrow> qreal \<Rightarrow> nat \<Rightarrow> items \<times> qreal \<Rightarrow> (items \<times> qreal) option" where
  "tick_body ax availableSpace i st = (case st of (s, height) \<Rightarrow> do {
      gridItem \<leftarrow> get (gridItems s) i;
      tickItem \<leftarrow> get (arrowItems s) (i + 1);
      labelItem \<leftarrow> get (labelItems s) i;
      y \<leftarrow> get (layout ax) i;
      let gridItem = grid_line ax y gridItem;
      text \<leftarrow> get (labelList ax) i;
      let (labelItem, boundingRect) = label_text ax availableSpace text labelItem;
      let rect = itemBoundingRect ax labelItem;
      let center = rect_center rect;
      let labelItem = labelItem\<lparr>ti_origin := \<lparr>xp = xp center, yp = yp center\<rparr>\<rparr>;
      let widthDiff = rect_width rect - rect_width boundingRect;
      let heightDiff = rect_height rect - rect_height boundingRect;
      let labelItem = label_position ax y rect widthDiff labelItem;
      let tickItem = tick_position ax y tickItem;
      (labelItem, forceHide) \<leftarrow> label_in_between ax i boundingRect center labelItem;
      let (labelItem, height) = label_overlap ax boundingRect heightDiff forceHide labelItem height;
      shades \<leftarrow> shades_step ax i (shadeItems s);
      let (gridItem, tickItem) = line_visibility ax gridItem tickItem;
      Some (s\<lparr>gridItems := (gridItems s)[i := gridItem],
               labelItems := (labelItems s)[i := labelItem],
               shadeItems := shades,
               arrowItems := (arrowItems s)[i + 1 := tickItem]\<rparr>, height)
    })"

function tick_loop :: "axis \<Rightarrow> qreal \<Rightarrow> nat \<Rightarrow> items \<times> qreal \<Rightarrow> (items \<times> qreal) option" where
  "tick_loop ax availableSpace i st =
     (if i < length (layout ax) then
        (case tick_body ax availableSpace i st of
           None \<Rightarrow> None
         | Some st' \<Rightarrow> tick_loop ax availableSpace (i + 1) st')
      else Some st)"
  by pat_completeness auto
termination
  by (relation "measure (\<lambda>(ax, availableSpace, i, st). length (layout ax) - i)") auto

text \<open>Begin and end grid line in interval mode (lines 186-195).\<close>

definition interval_grid_lines :: "axis \<Rightarrow> items \<Rightarrow> items option" where
  "interval_grid_lines ax s =
     (if intervalAxis ax then do {
        let gridRect = gridGeometry ax;
        gridLine \<leftarrow> get (gridItems s) (length (layout ax));
        let gridLine = gridLine\<lparr>li_line := \<lparr>l_x1 = rect_left gridRect, l_y1 = rect_top gridRect,
                                              l_x2 = rect_right gridRect, l_y2 = rect_top gridRect\<rparr>\<rparr>;
        let gridLine = gridLine\<lparr>li_visible := True\<rparr>;
        lines \<leftarrow> put (gridItems s) (length (layout ax)) gridLine;
        gridLine \<leftarrow> get lines (length (layout ax) + 1);
        let gridLine = gridLine\<lparr>li_line := \<lparr>l_x1 = rect_left gridRect, l_y1 = rect_bottom gridRect,
                                              l_x2 = rect_right gridRect, l_y2 = rect_bottom gridRect\<rparr>\<rparr>;
        let gridLine = gridLine\<lparr>li_visible := True\<rparr>;
        lines \<leftarrow> put lines (length (layout ax) + 1) gridLine;
        Some (s\<lparr>gridItems := lines\<rparr>)
      } else Some s)"

subsection \<open>The whole function\<close>

text \<open>
  A failed \<^verbatim>\<open>Q_ASSERT\<close> (lines 52-53) ends the run, like an access out of range.
\<close>

definition updateGeometry :: "axis \<Rightarrow> items \<Rightarrow> items option" where
  "updateGeometry ax s =
     (if layout ax = [] then Some s
      else if length (labelItems s) \<noteq> length (labelList ax) then None
      else if length (layout ax) \<noteq> length (labelList ax) then None
      else do {
        let height = rect_bottom (axisGeometry ax);
        arrowItem \<leftarrow> get (arrowItems s) 0;
        let s = s\<lparr>arrowItems := (arrowItems s)[0 := arrow_position ax arrowItem]\<rparr>;
        let (title, availableSpace) = title_geometry ax (titleItem s);
        let s = s\<lparr>titleItem := title\<rparr>;
        (s, height) \<leftarrow> tick_loop ax availableSpace 0 (s, height);
        interval_grid_lines ax s
      })"


section \<open>Auxiliary definitions for the proofs\<close>

text \<open>Abbreviations used in the proofs: the diagonal entry of row \<open>i\<close> in the loop, and
  the second control point of segment \<open>k\<close> in terms of the two solution vectors.\<close>

definition diag :: "nat \<Rightarrow> nat \<Rightarrow> real" where
  "diag count i = (if i < count - 1 then 4 else 7 / 2)"

definition second_cp :: "QPointF list \<Rightarrow> nat \<Rightarrow> qreal list \<Rightarrow> qreal list \<Rightarrow> nat \<Rightarrow> QPointF" where
  "second_cp points n xc yc k =
     (if k < n - 1
      then \<lparr>xp = 2 * xp (points ! (k + 1)) - xc ! (k + 1), yp = 2 * yp (points ! (k + 1)) - yc ! (k + 1)\<rparr>
      else \<lparr>xp = (xp (points ! n) + xc ! (n - 1)) / 2, yp = (yp (points ! n) + yc ! (n - 1)) / 2\<rparr>)"

text \<open>
  What one iteration leaves in the label item of position \<open>i\<close> and in \<^verbatim>\<open>height\<close>, as
  one expression (the sections of the loop body that touch the label, composed), and
  the value of \<^verbatim>\<open>height\<close> on entry to iteration \<open>k\<close> for a loop entered at \<open>i\<close> with \<open>h\<close>.
\<close>

definition label_result :: "axis \<Rightarrow> qreal \<Rightarrow> nat \<Rightarrow> TextItem \<Rightarrow> qreal \<Rightarrow> TextItem \<times> qreal" where
  "label_result ax av i item h =
     (let tb = label_text ax av (labelList ax ! i) item;
          rect = itemBoundingRect ax (fst tb);
          center = rect_center rect;
          item2 = label_position ax (layout ax ! i) rect (rect_width rect - rect_width (snd tb))
                    ((fst tb)\<lparr>ti_origin := \<lparr>xp = xp center, yp = yp center\<rparr>\<rparr>);
          lowerBound = min (layout ax ! i) (rect_bottom (gridGeometry ax));
          upperBound = max (layout ax ! (i + 1)) (rect_top (gridGeometry ax));
          item3 = (if intervalAxis ax \<and> i + 1 \<noteq> length (layout ax)
                   then item2\<lparr>ti_pos := \<lparr>xp = xp (ti_pos item2),
                          yp = lowerBound - ((lowerBound - upperBound) / 2) - yp center\<rparr>\<rparr>
                   else item2)
      in label_overlap ax (snd tb) (rect_height rect - rect_height (snd tb)) False item3 h)"

primrec heights :: "axis \<Rightarrow> qreal \<Rightarrow> TextItem list \<Rightarrow> nat \<Rightarrow> qreal \<Rightarrow> nat \<Rightarrow> qreal" where
  "heights ax av L i h 0 = h"
| "heights ax av L i h (Suc k) =
     (if Suc k \<le> i then h else snd (label_result ax av k (L ! k) (heights ax av L i h k)))"

text \<open>What the sections of one iteration leave in the shade list, and in the grid
  line and the tick (used to state the effect of the loop body as one equation).\<close>

definition shades_result :: "axis \<Rightarrow> nat \<Rightarrow> RectItem list \<Rightarrow> RectItem list" where
  "shades_result ax i shades =
     (if even i \<and> 2 \<le> i
      then shades[i div 2 - 1 := shade_rect ax (layout ax ! (i - 1)) (layout ax ! i) (shades ! (i div 2 - 1))]
      else shades)"

definition line_results :: "axis \<Rightarrow> nat \<Rightarrow> LineItem \<Rightarrow> LineItem \<Rightarrow> LineItem \<times> LineItem" where
  "line_results ax i gridItem tickItem =
     line_visibility ax (grid_line ax (layout ax ! i) gridItem) (tick_position ax (layout ax ! i) tickItem)"

text \<open>
  Names for the values of three local variables of \<^verbatim>\<open>updateGeometry\<close>, as functions of
  the axis and of the items on entry: \<^verbatim>\<open>availableSpace\<close> after the title block, and for
  the tick \<open>i\<close>, \<^verbatim>\<open>boundingRect\<close> (set by the truncation service; \<^verbatim>\<open>QRectF()\<close> for an
  empty text) and \<^verbatim>\<open>rect\<close> (the bounding rectangle of the label item once its text is set).
\<close>

definition available_space :: "axis \<Rightarrow> items \<Rightarrow> qreal" where
  "available_space ax s = snd (title_geometry ax (titleItem s))"

definition label_bounding_rect :: "axis \<Rightarrow> items \<Rightarrow> nat \<Rightarrow> QRectF" where
  "label_bounding_rect ax s i =
     snd (label_text ax (available_space ax s) (labelList ax ! i) (labelItems s ! i))"

definition label_item_rect :: "axis \<Rightarrow> items \<Rightarrow> nat \<Rightarrow> QRectF" where
  "label_item_rect ax s i =
     itemBoundingRect ax (fst (label_text ax (available_space ax s) (labelList ax ! i) (labelItems s ! i)))"

text \<open>
  The sizes of the item lists that the run needs: one label per tick (the two
  assertions), a grid line per tick and two more in interval mode, the axis line and a
  tick mark per tick, and a shade for every second slot.
\<close>

definition grid_items_needed :: "axis \<Rightarrow> nat" where
  "grid_items_needed ax = (if intervalAxis ax then length (layout ax) + 2 else length (layout ax))"

definition well_sized :: "axis \<Rightarrow> items \<Rightarrow> bool" where
  "well_sized ax s \<longleftrightarrow>
     length (labelList ax) = length (layout ax) \<and>
     length (labelItems s) = length (layout ax) \<and>
     grid_items_needed ax \<le> length (gridItems s) \<and>
     length (layout ax) < length (arrowItems s) \<and>
     (length (layout ax) - 1) div 2 \<le> length (shadeItems s)"

text \<open>
  The overlap rule in the words of the specification. \<open>threshold ax L i\<close> is the running
  threshold when the tick \<open>i\<close> is reached, read off the labels \<open>L\<close>: the bottom of the axis
  rectangle at first, then the top (\<^verbatim>\<open>pos().y()\<close>) of the last visible label before \<open>i\<close>.
  \<open>hidden_by_overlap\<close> is the condition under which a label that is not force-hidden
  is hidden: its bottom edge, \<open>y\<close> plus the height of \<^verbatim>\<open>boundingRect\<close>, crosses the
  threshold, or it lies more than one pixel outside the axis rectangle.
\<close>

primrec threshold :: "axis \<Rightarrow> TextItem list \<Rightarrow> nat \<Rightarrow> qreal" where
  "threshold ax L 0 = rect_bottom (axisGeometry ax)"
| "threshold ax L (Suc k) = (if ti_visible (L ! k) then yp (ti_pos (L ! k)) else threshold ax L k)"

definition hidden_by_overlap :: "axis \<Rightarrow> qreal \<Rightarrow> qreal \<Rightarrow> qreal \<Rightarrow> qreal \<Rightarrow> bool" where
  "hidden_by_overlap ax y boundingHeight heightDiff height \<longleftrightarrow>
     y + boundingHeight > height \<or>
     y + heightDiff / 2 - 1 > rect_bottom (axisGeometry ax) \<or>
     y + heightDiff / 2 < rect_top (axisGeometry ax) - 1"

text \<open>
  Concrete inputs for the witnesses and counterexamples: an axis rectangle
  \<open>(0, 0, 50, 100)\<close> left of a grid rectangle \<open>(50, 0, 200, 100)\<close>, no title, label padding
  5, a text service that never truncates, and texts that are 20 wide and 10 high.
\<close>

definition example_axis :: "qreal list \<Rightarrow> string list \<Rightarrow> bool \<Rightarrow> axis" where
  "example_axis ticks texts interval =
     \<lparr>layout = ticks, labelList = texts,
      axisGeometry = \<lparr>r_x = 0, r_y = 0, r_w = 50, r_h = 100\<rparr>,
      gridGeometry = \<lparr>r_x = 50, r_y = 0, r_w = 200, r_h = 100\<rparr>,
      alignment = AlignLeft, intervalAxis = interval, labelPadding = 5, titlePadding = 0,
      titleText = [], labelsFont = [], titleFont = [], labelsAngle = 0,
      truncatedText = (\<lambda>font text angle w h. (text, \<lparr>r_x = 0, r_y = 0, r_w = 20, r_h = 10\<rparr>)),
      textBoundingRect = (\<lambda>font text. \<lparr>r_x = 0, r_y = 0, r_w = 20, r_h = 10\<rparr>),
      itemBoundingRect = (\<lambda>item. \<lparr>r_x = 0, r_y = 0, r_w = 20, r_h = 10\<rparr>)\<rparr>"

definition new_line :: LineItem where
  "new_line = \<lparr>li_line = \<lparr>l_x1 = 0, l_y1 = 0, l_x2 = 0, l_y2 = 0\<rparr>, li_visible = False\<rparr>"

definition new_text :: TextItem where
  "new_text = \<lparr>ti_html = [], ti_pos = \<lparr>xp = 0, yp = 0\<rparr>, ti_origin = \<lparr>xp = 0, yp = 0\<rparr>,
                ti_rotation = 0, ti_visible = False\<rparr>"

definition new_rect :: RectItem where
  "new_rect = \<lparr>ri_rect = null_rect, ri_visible = False\<rparr>"

definition example_items2 :: items where
  "example_items2 =
     \<lparr>gridItems = [new_line, new_line, new_line, new_line],
      labelItems = [new_text, new_text],
      shadeItems = [],
      arrowItems = [new_line, new_line, new_line],
      titleItem = new_text\<rparr>"

definition example_items4 :: items where
  "example_items4 =
     \<lparr>gridItems = [new_line, new_line, new_line, new_line],
      labelItems = [new_text, new_text, new_text, new_text],
      shadeItems = [new_rect],
      arrowItems = [new_line, new_line, new_line, new_line, new_line],
      titleItem = new_text\<rparr>"

text \<open>
  The band \<open>k\<close> belongs to the tick \<open>2 * k + 2\<close> (the 1-indexed positions 3, 5, \<dots>): the
  rectangle of the full width of the grid between that tick and the previous one, each
  clamped to the grid. \<open>visible_bands s m\<close> counts the visible ones among the first \<open>m\<close>
  shade items.
\<close>

definition band_rect :: "axis \<Rightarrow> nat \<Rightarrow> QRectF" where
  "band_rect ax k =
     \<lparr>r_x = rect_left (gridGeometry ax),
      r_y = max (layout ax ! (2 * k + 2)) (rect_top (gridGeometry ax)),
      r_w = rect_width (gridGeometry ax),
      r_h = min (layout ax ! (2 * k + 1)) (rect_bottom (gridGeometry ax))
            - max (layout ax ! (2 * k + 2)) (rect_top (gridGeometry ax))\<rparr>"

definition visible_bands :: "items \<Rightarrow> nat \<Rightarrow> nat" where
  "visible_bands s m = length (filter ri_visible (take m (shadeItems s)))"

declare fcp_forward.simps [simp del] fcp_backward.simps [simp del]
  rhs_loop.simps [simp del] cp_loop.simps [simp del] tick_loop.simps [simp del]


section \<open>Proofs: spline series\<close>

lemma get_Some [simp]: "i < length xs \<Longrightarrow> get xs i = Some (xs ! i)"
  by (simp add: get_def)

lemma put_Some [simp]: "i < length xs \<Longrightarrow> put xs i v = Some (xs[i := v])"
  by (simp add: put_def)

lemma setX_Some [simp]: "j < length m \<Longrightarrow> setX m j v = Some (m[j := (m ! j)\<lparr>xp := v\<rparr>])"
  by (simp add: setX_def)

lemma setY_Some [simp]: "j < length m \<Longrightarrow> setY m j v = Some (m[j := (m ! j)\<lparr>yp := v\<rparr>])"
  by (simp add: setY_def)

lemma length_resize [simp]: "length (resize d xs k) = k"
  by (simp add: resize_def)

lemma resize_Nil [simp]: "resize d [] k = replicate k d"
  by (simp add: resize_def)

lemma qdiv_Some [simp]: "b \<noteq> 0 \<Longrightarrow> qdiv a b = Some (a / b)"
  by (simp add: qdiv_def)

lemma diag_ge: "7 / 2 \<le> diag count i"  by (simp add: diag_def)

lemma fcp_forward_body_Some:
  assumes "length vector = count" "length result = count" "length temp = count"
    and "1 \<le> i" "i < count" "2 \<le> b"
  shows "fcp_forward_body vector count i (b, result, temp) =
    Some (diag count i - 1 / b,
          result[i := (vector ! i - result ! (i - 1)) / (diag count i - 1 / b)],
          temp[i := 1 / b])"
proof -
  have b0: "b \<noteq> 0" using assms by simp
  have "1 / b \<le> 1 / 2" using assms by (simp add: field_simps)
  then have "diag count i - 1 / b \<noteq> 0" using diag_ge [of count i] by linarith
  then show ?thesis using assms b0
    by (auto simp: fcp_forward_body_def diag_def Let_def)
qed


lemma fcp_forward_inv:
  assumes "length vector = count" "length result = count" "length temp = count"
    and "1 \<le> i" "i \<le> count" "2 \<le> b"
  shows "\<exists>b' r' t'. fcp_forward vector count i (b, result, temp) = Some (b', r', t')
      \<and> length r' = count \<and> length t' = count
      \<and> (i < count \<longrightarrow> 3 \<le> b' \<and> b' = diag count (count - 1) - t' ! (count - 1))
      \<and> (i = count \<longrightarrow> b' = b)
      \<and> (\<forall>k<i. r' ! k = result ! k \<and> t' ! k = temp ! k)
      \<and> (i < count \<longrightarrow> t' ! i = 1 / b)
      \<and> (\<forall>k. i \<le> k \<and> k < count \<longrightarrow> 0 < t' ! k \<and> t' ! k \<le> 1 / 2
            \<and> r' ! k * (diag count k - t' ! k) = vector ! k - r' ! (k - 1))
      \<and> (\<forall>k. i \<le> k \<and> k + 1 < count \<longrightarrow> t' ! (k + 1) * (diag count k - t' ! k) = 1)"
  using assms
proof (induction "count - i" arbitrary: i b result temp)
  case 0
  then have "i = count" by simp
  then show ?case using 0 by (simp add: fcp_forward.simps)
next
  case (Suc d)
  then have lt: "i < count" by simp
  define b1 where "b1 = diag count i - 1 / b"
  define r1 where "r1 = result[i := (vector ! i - result ! (i - 1)) / b1]"
  define t1 where "t1 = temp[i := 1 / b]"
  have bpos: "0 < b" using Suc.prems by simp
  have rb: "1 / b \<le> 1 / 2" "0 < 1 / b" using Suc.prems by (simp_all add: field_simps)
  have b1: "3 \<le> b1" unfolding b1_def using rb(1) diag_ge [of count i] by linarith
  have body: "fcp_forward_body vector count i (b, result, temp) = Some (b1, r1, t1)"
    using fcp_forward_body_Some [of vector count result temp i b] Suc.prems lt
    by (simp add: b1_def r1_def t1_def)
  have step: "fcp_forward vector count i (b, result, temp) = fcp_forward vector count (i + 1) (b1, r1, t1)"
    using lt body by (subst fcp_forward.simps) simp
  have "d = count - (i + 1)" using Suc.hyps by simp
  from Suc.hyps(1) [OF this, of r1 t1 b1] Suc.prems lt b1
  obtain b' r' t' where R: "fcp_forward vector count (i + 1) (b1, r1, t1) = Some (b', r', t')"
    and L: "length r' = count" "length t' = count"
    and B: "i + 1 < count \<longrightarrow> 3 \<le> b' \<and> b' = diag count (count - 1) - t' ! (count - 1)"
      "i + 1 = count \<longrightarrow> b' = b1"
    and F: "\<forall>k<i + 1. r' ! k = r1 ! k \<and> t' ! k = t1 ! k"
    and T: "i + 1 < count \<longrightarrow> t' ! (i + 1) = 1 / b1"
    and P: "\<forall>k. i + 1 \<le> k \<and> k < count \<longrightarrow> 0 < t' ! k \<and> t' ! k \<le> 1 / 2
            \<and> r' ! k * (diag count k - t' ! k) = vector ! k - r' ! (k - 1)"
    and Q: "\<forall>k. i + 1 \<le> k \<and> k + 1 < count \<longrightarrow> t' ! (k + 1) * (diag count k - t' ! k) = 1"
    by (auto simp: r1_def t1_def)
  have ti: "t' ! i = 1 / b" using F lt Suc.prems by (simp add: t1_def)
  have ri: "r' ! i = (vector ! i - result ! (i - 1)) / b1" using F lt Suc.prems by (simp add: r1_def)
  have rp: "r' ! (i - 1) = result ! (i - 1)" using F lt Suc.prems by (simp add: r1_def)
  have frame: "\<forall>k<i. r' ! k = result ! k \<and> t' ! k = temp ! k"
    using F by (simp add: r1_def t1_def)
  have b'3: "3 \<le> b' \<and> b' = diag count (count - 1) - t' ! (count - 1)"
  proof (cases "i + 1 < count")
    case True
    then show ?thesis using B by simp
  next
    case False
    then have e: "i + 1 = count" using lt by simp
    then have "count - 1 = i" by simp
    then show ?thesis using B e b1 ti by (simp add: b1_def)
  qed
  have rowi: "r' ! i * (diag count i - t' ! i) = vector ! i - r' ! (i - 1)"
  proof -
    have "r' ! i * (diag count i - t' ! i) = (vector ! i - result ! (i - 1)) / b1 * b1"
      by (simp only: ti ri b1_def)
    also have "\<dots> = vector ! i - result ! (i - 1)" using b1 by simp
    finally show ?thesis by (simp only: rp)
  qed
  have P': "\<forall>k. i \<le> k \<and> k < count \<longrightarrow> 0 < t' ! k \<and> t' ! k \<le> 1 / 2
            \<and> r' ! k * (diag count k - t' ! k) = vector ! k - r' ! (k - 1)"
  proof (intro allI impI)
    fix k assume k: "i \<le> k \<and> k < count"
    show "0 < t' ! k \<and> t' ! k \<le> 1 / 2
            \<and> r' ! k * (diag count k - t' ! k) = vector ! k - r' ! (k - 1)"
    proof (cases "k = i")
      case True
      then show ?thesis using rowi rb ti by simp
    next
      case False
      then show ?thesis using P k by simp
    qed
  qed
  have Q': "\<forall>k. i \<le> k \<and> k + 1 < count \<longrightarrow> t' ! (k + 1) * (diag count k - t' ! k) = 1"
  proof (intro allI impI)
    fix k assume k: "i \<le> k \<and> k + 1 < count"
    show "t' ! (k + 1) * (diag count k - t' ! k) = 1"
    proof (cases "k = i")
      case True
      then show ?thesis using T k b1 by (simp add: ti b1_def [symmetric])
    next
      case False
      then show ?thesis using Q k by simp
    qed
  qed
  show ?case
    using step R L b'3 frame ti P' Q' lt by simp
qed


lemma fcp_backward_inv:
  assumes "length temp = count" "length result = count" "1 \<le> i" "i \<le> count"
  shows "\<exists>r'. fcp_backward temp count i result = Some r' \<and> length r' = count
      \<and> (\<forall>k. count - i \<le> k \<and> k < count \<longrightarrow> r' ! k = result ! k)
      \<and> (\<forall>k. k + i < count \<longrightarrow> r' ! k = result ! k - temp ! (k + 1) * r' ! (k + 1))"
  using assms
proof (induction "count - i" arbitrary: i result)
  case 0
  then have "i = count" by simp
  then show ?case using 0 by (simp add: fcp_backward.simps)
next
  case (Suc d)
  then have lt: "i < count" by simp
  define j where "j = count - i - 1"
  have j: "j < count" "count - i = j + 1" "j + i + 1 = count"
    using lt Suc.prems by (simp_all add: j_def)
  define r1 where "r1 = result[j := result ! j - temp ! (j + 1) * result ! (j + 1)]"
  have body: "fcp_backward_body temp count i result = Some r1"
    using Suc.prems lt j by (simp add: fcp_backward_body_def r1_def j_def [symmetric])
  have step: "fcp_backward temp count i result = fcp_backward temp count (i + 1) r1"
    using lt body by (subst fcp_backward.simps) simp
  have "d = count - (i + 1)" using Suc.hyps by simp
  moreover have "length r1 = count" "1 \<le> i + 1" "i + 1 \<le> count"
    using Suc.prems lt by (simp_all add: r1_def)
  ultimately have "\<exists>r'. fcp_backward temp count (i + 1) r1 = Some r' \<and> length r' = count
      \<and> (\<forall>k. count - (i + 1) \<le> k \<and> k < count \<longrightarrow> r' ! k = r1 ! k)
      \<and> (\<forall>k. k + (i + 1) < count \<longrightarrow> r' ! k = r1 ! k - temp ! (k + 1) * r' ! (k + 1))"
    using Suc.hyps(1) [of "i + 1" r1] Suc.prems(1) by blast
  then obtain r' where R: "fcp_backward temp count (i + 1) r1 = Some r'"
    and L: "length r' = count"
    and F: "\<forall>k. count - (i + 1) \<le> k \<and> k < count \<longrightarrow> r' ! k = r1 ! k"
    and P: "\<forall>k. k + (i + 1) < count \<longrightarrow> r' ! k = r1 ! k - temp ! (k + 1) * r' ! (k + 1)"
    by blast
  have F': "\<forall>k. count - i \<le> k \<and> k < count \<longrightarrow> r' ! k = result ! k"
  proof (intro allI impI)
    fix k assume k: "count - i \<le> k \<and> k < count"
    then have "count - (i + 1) \<le> k \<and> k < count" by linarith
    then have "r' ! k = r1 ! k" using F by blast
    moreover have "k \<noteq> j" using k j by linarith
    ultimately show "r' ! k = result ! k" by (simp add: r1_def)
  qed
  have P': "\<forall>k. k + i < count \<longrightarrow> r' ! k = result ! k - temp ! (k + 1) * r' ! (k + 1)"
  proof (intro allI impI)
    fix k assume k: "k + i < count"
    show "r' ! k = result ! k - temp ! (k + 1) * r' ! (k + 1)"
    proof (cases "k = j")
      case True
      have "count - (i + 1) \<le> j \<and> j < count" using j by linarith
      then have "r' ! j = r1 ! j" using F by blast
      moreover have "count - i \<le> j + 1 \<and> j + 1 < count" using j Suc.prems by linarith
      then have "r' ! (j + 1) = result ! (j + 1)" using F' by blast
      moreover have "r1 ! j = result ! j - temp ! (j + 1) * result ! (j + 1)"
        using j Suc.prems by (simp add: r1_def)
      ultimately show ?thesis using True by simp
    next
      case False
      then have "k + (i + 1) < count" using k j by simp
      then have "r' ! k = r1 ! k - temp ! (k + 1) * r' ! (k + 1)" using P by simp
      moreover have "r1 ! k = result ! k" using False by (simp add: r1_def)
      ultimately show ?thesis by simp
    qed
  qed
  show ?case using step R L F' P' by simp
qed

lemma fcp_eliminate_inv:
  assumes "vector \<noteq> []"
  shows "\<exists>b d t. fcp_eliminate vector = Some (b, d, t)
      \<and> length d = length vector \<and> length t = length vector
      \<and> d ! 0 = vector ! 0 / 2
      \<and> (1 < length vector \<longrightarrow>
            3 \<le> b \<and> b = diag (length vector) (length vector - 1) - t ! (length vector - 1))
      \<and> (1 = length vector \<longrightarrow> b = 2)
      \<and> (1 < length vector \<longrightarrow> t ! 1 = 1 / 2)
      \<and> (\<forall>k. 1 \<le> k \<and> k < length vector \<longrightarrow> 0 < t ! k \<and> t ! k \<le> 1 / 2
            \<and> d ! k * (diag (length vector) k - t ! k) = vector ! k - d ! (k - 1))
      \<and> (\<forall>k. 1 \<le> k \<and> k + 1 < length vector \<longrightarrow>
            t ! (k + 1) * (diag (length vector) k - t ! k) = 1)"
proof -
  define count where "count = length vector"
  have c1: "1 \<le> count" using assms by (simp add: count_def Suc_le_eq)
  define r0 where "r0 = (replicate count (0::real))[0 := vector ! 0 / 2]"
  define t0 where "t0 = (replicate count (0::real))[0 := 0]"
  have pre: "length vector = count" "length r0 = count" "length t0 = count"
    "1 \<le> (1::nat)" "1 \<le> count" "(2::real) \<le> 2"
    using c1 by (simp_all add: count_def r0_def t0_def)
  from fcp_forward_inv [OF pre]
  obtain b' d t where fw: "fcp_forward vector count 1 (2, r0, t0) = Some (b', d, t)"
    and L: "length d = count" "length t = count"
    and B: "1 < count \<longrightarrow> 3 \<le> b' \<and> b' = diag count (count - 1) - t ! (count - 1)"
      "1 = count \<longrightarrow> b' = 2"
    and F: "\<forall>k<1. d ! k = r0 ! k \<and> t ! k = t0 ! k"
    and t1: "1 < count \<longrightarrow> t ! 1 = 1 / 2"
    and P0: "\<forall>k. 1 \<le> k \<and> k < count \<longrightarrow> 0 < t ! k \<and> t ! k \<le> 1 / 2
            \<and> d ! k * (diag count k - t ! k) = vector ! k - d ! (k - 1)"
    and Q: "\<forall>k. 1 \<le> k \<and> k + 1 < count \<longrightarrow> t ! (k + 1) * (diag count k - t ! k) = 1"
    by (elim exE conjE)
  have d0: "d ! 0 = vector ! 0 / 2" using F c1 by (simp add: r0_def)
  have run: "fcp_eliminate vector = Some (b', d, t)"
    using c1 fw by (simp add: fcp_eliminate_def count_def [symmetric] r0_def t0_def)
  show ?thesis
    using run L d0 B t1 P0 Q unfolding count_def
    by (intro exI [of _ b'] exI [of _ d] exI [of _ t] conjI)
qed

lemma fcp_solves:
  assumes "vector \<noteq> []"
  shows "\<exists>x. firstControlPoints vector = Some x \<and> length x = length vector
      \<and> (length vector = 1 \<longrightarrow> 2 * x ! 0 = vector ! 0)
      \<and> (2 \<le> length vector \<longrightarrow> tridiagonal (7 / 2) (length vector) ((!) x) ((!) vector))"
proof -
  define count where "count = length vector"
  have c1: "1 \<le> count" using assms by (simp add: count_def Suc_le_eq)
  have pre: "1 \<le> (1::nat)" by simp
  from fcp_eliminate_inv [OF assms, folded count_def]
  obtain b' d t where el: "fcp_eliminate vector = Some (b', d, t)"
    and L: "length d = count" "length t = count"
    and d0: "d ! 0 = vector ! 0 / 2"
    and t1: "1 < count \<longrightarrow> t ! 1 = 1 / 2"
    and P0: "\<forall>k. 1 \<le> k \<and> k < count \<longrightarrow> 0 < t ! k \<and> t ! k \<le> 1 / 2
            \<and> d ! k * (diag count k - t ! k) = vector ! k - d ! (k - 1)"
    and Q: "\<forall>k. 1 \<le> k \<and> k + 1 < count \<longrightarrow> t ! (k + 1) * (diag count k - t ! k) = 1"
    by (elim exE conjE)
  have P: "\<forall>k. 1 \<le> k \<and> k < count \<longrightarrow> d ! k * (diag count k - t ! k) = vector ! k - d ! (k - 1)"
    using P0 by blast
  from fcp_backward_inv [OF L(2) L(1) pre c1]
  obtain x where bw: "fcp_backward t count 1 d = Some x"
    and Lx: "length x = count"
    and X0: "\<forall>k. count - 1 \<le> k \<and> k < count \<longrightarrow> x ! k = d ! k"
    and X: "\<forall>k. k + 1 < count \<longrightarrow> x ! k = d ! k - t ! (k + 1) * x ! (k + 1)"
    by blast
  have xl: "x ! (count - 1) = d ! (count - 1)" using X0 c1 by simp
  have run: "firstControlPoints vector = Some x"
    using el bw by (simp add: firstControlPoints_def count_def [symmetric])
  have one: "count = 1 \<Longrightarrow> 2 * x ! 0 = vector ! 0"
    using xl d0 by simp
  have row0: "2 * x ! 0 + x ! 1 = vector ! 0" if "2 \<le> count"
  proof -
    have "x ! 0 = d ! 0 - t ! 1 * x ! 1" using X that by simp
    then show ?thesis using d0 t1 that by simp
  qed
  have mid: "x ! (k - 1) + diag count k * x ! k + (if k + 1 < count then x ! (k + 1) else 0) = vector ! k"
    if k: "1 \<le> k" "k < count" for k
  proof -
    define m where "m = diag count k - t ! k"
    have a: "x ! (k - 1) = d ! (k - 1) - t ! k * x ! k" using X [rule_format, of "k - 1"] k by simp
    have b: "d ! k * m = vector ! k - d ! (k - 1)" using P k by (simp add: m_def)
    have "m * x ! k + (if k + 1 < count then x ! (k + 1) else 0) = d ! k * m"
    proof (cases "k + 1 < count")
      case True
      have xk: "x ! k = d ! k - t ! (k + 1) * x ! (k + 1)" using X True by simp
      have tm: "t ! (k + 1) * m = 1" using Q True k by (simp add: m_def)
      have "m * x ! k = d ! k * m - (t ! (k + 1) * m) * x ! (k + 1)"
        by (subst xk) (simp only: algebra_simps)
      also have "\<dots> = d ! k * m - x ! (k + 1)" by (simp only: tm mult_1)
      finally show ?thesis using True by simp
    next
      case False
      then have "k = count - 1" using k by simp
      then show ?thesis using xl False by simp
    qed
    then show ?thesis using a b by (simp add: m_def algebra_simps)
  qed
  have rows: "\<forall>k\<in>{1..<count - 1}. x ! (k - 1) + 4 * x ! k + x ! (k + 1) = vector ! k"
  proof
    fix k assume "k \<in> {1..<count - 1}"
    then have k: "1 \<le> k \<and> k + 1 < count" by auto
    then have "k < count - 1" by linarith
    then have "diag count k = 4" by (simp add: diag_def)
    then show "x ! (k - 1) + 4 * x ! k + x ! (k + 1) = vector ! k"
      using mid [of k] k by simp
  qed
  have last: "x ! (count - 2) + 7 / 2 * x ! (count - 1) = vector ! (count - 1)" if "2 \<le> count"
  proof -
    have "count - 1 - 1 = count - 2" by simp
    then show ?thesis using mid [of "count - 1"] that by (simp add: diag_def)
  qed
  show ?thesis
    using run Lx one row0 rows last by (simp add: tridiagonal_def count_def [symmetric])
qed


lemma rhs_loop_inv:
  assumes "length vector = n" "length points = n + 1" "i \<le> n - 1"
  shows "\<exists>v'. rhs_loop c points n i vector = Some v' \<and> length v' = n
      \<and> (\<forall>k. k < i \<or> n - 1 \<le> k \<longrightarrow> v' ! k = vector ! k)
      \<and> (\<forall>k. i \<le> k \<and> k < n - 1 \<longrightarrow> v' ! k = 4 * c (points ! k) + 2 * c (points ! (k + 1)))"
  using assms
proof (induction "n - 1 - i" arbitrary: i vector)
  case 0
  then have "\<not> i < n - 1" by simp
  then show ?case using 0 by (simp add: rhs_loop.simps)
next
  case (Suc d)
  then have lt: "i < n - 1" by simp
  define v1 where "v1 = vector[i := 4 * c (points ! i) + 2 * c (points ! (i + 1))]"
  have step: "rhs_loop c points n i vector = rhs_loop c points n (i + 1) v1"
    using lt Suc.prems by (subst rhs_loop.simps) (simp add: v1_def)
  have "d = n - 1 - (i + 1)" "length v1 = n" "i + 1 \<le> n - 1"
    using Suc.hyps Suc.prems lt by (simp_all add: v1_def)
  then have "\<exists>v'. rhs_loop c points n (i + 1) v1 = Some v' \<and> length v' = n
      \<and> (\<forall>k. k < i + 1 \<or> n - 1 \<le> k \<longrightarrow> v' ! k = v1 ! k)
      \<and> (\<forall>k. i + 1 \<le> k \<and> k < n - 1 \<longrightarrow> v' ! k = 4 * c (points ! k) + 2 * c (points ! (k + 1)))"
    using Suc.hyps(1) [of "i + 1" v1] Suc.prems(2) by blast
  then obtain v' where R: "rhs_loop c points n (i + 1) v1 = Some v'"
    and L: "length v' = n"
    and F: "\<forall>k. k < i + 1 \<or> n - 1 \<le> k \<longrightarrow> v' ! k = v1 ! k"
    and P: "\<forall>k. i + 1 \<le> k \<and> k < n - 1 \<longrightarrow> v' ! k = 4 * c (points ! k) + 2 * c (points ! (k + 1))"
    by blast
  have F': "\<forall>k. k < i \<or> n - 1 \<le> k \<longrightarrow> v' ! k = vector ! k"
  proof (intro allI impI)
    fix k assume k: "k < i \<or> n - 1 \<le> k"
    then have "k < i + 1 \<or> n - 1 \<le> k" by linarith
    then have "v' ! k = v1 ! k" using F by blast
    moreover have "k \<noteq> i" using k lt by linarith
    ultimately show "v' ! k = vector ! k" by (simp add: v1_def)
  qed
  have P': "\<forall>k. i \<le> k \<and> k < n - 1 \<longrightarrow> v' ! k = 4 * c (points ! k) + 2 * c (points ! (k + 1))"
  proof (intro allI impI)
    fix k assume k: "i \<le> k \<and> k < n - 1"
    show "v' ! k = 4 * c (points ! k) + 2 * c (points ! (k + 1))"
    proof (cases "k = i")
      case True
      have "v' ! i = v1 ! i" using F by simp
      then show ?thesis using True lt Suc.prems by (simp add: v1_def)
    next
      case False
      then show ?thesis using P k by simp
    qed
  qed
  show ?case using step R L F' P' by simp
qed

lemma rhs_vector_Some:
  assumes "length vector = n" "length points = n + 1" "2 \<le> n"
  shows "\<exists>v'. rhs_vector c points n vector = Some v' \<and> length v' = n
      \<and> v' ! 0 = c (points ! 0) + 2 * c (points ! 1)
      \<and> (\<forall>k. 1 \<le> k \<and> k < n - 1 \<longrightarrow> v' ! k = 4 * c (points ! k) + 2 * c (points ! (k + 1)))
      \<and> v' ! (n - 1) = (8 * c (points ! (n - 1)) + c (points ! n)) / 2"
proof -
  define v0 where "v0 = vector[0 := c (points ! 0) + 2 * c (points ! 1)]"
  have pre: "length v0 = n" "length points = n + 1" "1 \<le> n - 1"
    using assms by (simp_all add: v0_def)
  from rhs_loop_inv [OF pre, of c]
  obtain v1 where R: "rhs_loop c points n 1 v0 = Some v1"
    and L: "length v1 = n"
    and F: "\<forall>k. k < 1 \<or> n - 1 \<le> k \<longrightarrow> v1 ! k = v0 ! k"
    and P: "\<forall>k. 1 \<le> k \<and> k < n - 1 \<longrightarrow> v1 ! k = 4 * c (points ! k) + 2 * c (points ! (k + 1))"
    by blast
  define v2 where "v2 = v1[n - 1 := (8 * c (points ! (n - 1)) + c (points ! n)) / 2]"
  have run: "rhs_vector c points n vector = Some v2"
    using assms R [unfolded v0_def] L by (simp add: rhs_vector_def v2_def)
  have "v1 ! 0 = v0 ! 0" using F by simp
  then have z: "v2 ! 0 = c (points ! 0) + 2 * c (points ! 1)"
    using assms by (simp add: v2_def v0_def)
  have m: "\<forall>k. 1 \<le> k \<and> k < n - 1 \<longrightarrow> v2 ! k = 4 * c (points ! k) + 2 * c (points ! (k + 1))"
    using P by (simp add: v2_def)
  have l: "v2 ! (n - 1) = (8 * c (points ! (n - 1)) + c (points ! n)) / 2"
    using L assms by (simp add: v2_def)
  show ?thesis using run L z m l by (simp add: v2_def)
qed

lemma QPointF_update_both [simp]: "(r::QPointF)\<lparr>xp := a, yp := b\<rparr> = \<lparr>xp = a, yp = b\<rparr>"
  by (cases r) simp

lemma cp_body_Some:
  assumes "length points = n + 1" "length xc = n" "length yc = n" "length m = 2 * n" "i < n"
  shows "cp_body points n xc yc i (2 * i) m =
     Some (2 * i + 1, m[2 * i := \<lparr>xp = xc ! i, yp = yc ! i\<rparr>, 2 * i + 1 := second_cp points n xc yc i])"
  using assms by (auto simp: cp_body_def second_cp_def Let_def list_update_swap)

lemma cp_loop_inv:
  assumes "length points = n + 1" "length xc = n" "length yc = n" "length m = 2 * n" "i \<le> n"
  shows "\<exists>m'. cp_loop points n xc yc i (2 * i) m = Some m' \<and> length m' = 2 * n
      \<and> (\<forall>k<2 * i. m' ! k = m ! k)
      \<and> (\<forall>k. i \<le> k \<and> k < n \<longrightarrow> m' ! (2 * k) = \<lparr>xp = xc ! k, yp = yc ! k\<rparr>
             \<and> m' ! (2 * k + 1) = second_cp points n xc yc k)"
  using assms
proof (induction "n - i" arbitrary: i m)
  case 0
  then have "i = n" by simp
  then show ?case using 0 by (simp add: cp_loop.simps)
next
  case (Suc d)
  then have lt: "i < n" by simp
  define m1 where "m1 = m[2 * i := \<lparr>xp = xc ! i, yp = yc ! i\<rparr>, 2 * i + 1 := second_cp points n xc yc i]"
  have body: "cp_body points n xc yc i (2 * i) m = Some (2 * i + 1, m1)"
    using cp_body_Some [OF Suc.prems(1-4) lt] by (simp add: m1_def)
  have "2 * i + 1 + 1 = 2 * (i + 1)" by simp
  then have step: "cp_loop points n xc yc i (2 * i) m = cp_loop points n xc yc (i + 1) (2 * (i + 1)) m1"
    using lt body by (subst cp_loop.simps) simp
  have "d = n - (i + 1)" "length m1 = 2 * n" "i + 1 \<le> n"
    using Suc.hyps Suc.prems lt by (simp_all add: m1_def)
  then have "\<exists>m'. cp_loop points n xc yc (i + 1) (2 * (i + 1)) m1 = Some m' \<and> length m' = 2 * n
      \<and> (\<forall>k<2 * (i + 1). m' ! k = m1 ! k)
      \<and> (\<forall>k. i + 1 \<le> k \<and> k < n \<longrightarrow> m' ! (2 * k) = \<lparr>xp = xc ! k, yp = yc ! k\<rparr>
             \<and> m' ! (2 * k + 1) = second_cp points n xc yc k)"
    using Suc.hyps(1) [of "i + 1" m1] Suc.prems(1-3) by blast
  then obtain m' where R: "cp_loop points n xc yc (i + 1) (2 * (i + 1)) m1 = Some m'"
    and L: "length m' = 2 * n"
    and F: "\<forall>k<2 * (i + 1). m' ! k = m1 ! k"
    and P: "\<forall>k. i + 1 \<le> k \<and> k < n \<longrightarrow> m' ! (2 * k) = \<lparr>xp = xc ! k, yp = yc ! k\<rparr>
             \<and> m' ! (2 * k + 1) = second_cp points n xc yc k"
    by blast
  have F': "\<forall>k<2 * i. m' ! k = m ! k"
  proof (intro allI impI)
    fix k assume k: "k < 2 * i"
    then have "m' ! k = m1 ! k" using F by simp
    then show "m' ! k = m ! k" using k by (simp add: m1_def)
  qed
  have a: "m' ! (2 * i) = \<lparr>xp = xc ! i, yp = yc ! i\<rparr>"
  proof -
    have "m' ! (2 * i) = m1 ! (2 * i)" using F by simp
    then show ?thesis using lt Suc.prems by (simp add: m1_def)
  qed
  have b: "m' ! (2 * i + 1) = second_cp points n xc yc i"
  proof -
    have "m' ! (2 * i + 1) = m1 ! (2 * i + 1)" using F by simp
    then show ?thesis using lt Suc.prems by (simp add: m1_def)
  qed
  have P': "\<forall>k. i \<le> k \<and> k < n \<longrightarrow> m' ! (2 * k) = \<lparr>xp = xc ! k, yp = yc ! k\<rparr>
             \<and> m' ! (2 * k + 1) = second_cp points n xc yc k"
  proof (intro allI impI)
    fix k assume k: "i \<le> k \<and> k < n"
    show "m' ! (2 * k) = \<lparr>xp = xc ! k, yp = yc ! k\<rparr> \<and> m' ! (2 * k + 1) = second_cp points n xc yc k"
    proof (cases "k = i")
      case True
      then show ?thesis using a b by simp
    next
      case False
      then show ?thesis using P k by simp
    qed
  qed
  show ?case using step R L F' P' by simp
qed

lemma tridiagonal_cong:
  assumes "2 \<le> n" "\<forall>i<n. b i = b' i" "\<forall>i<n. x i = x' i"
  shows "tridiagonal d n x b = tridiagonal d n x' b'"
proof -
  have "\<And>i. i \<in> {1..<n - 1} \<Longrightarrow> i - 1 < n \<and> i < n \<and> i + 1 < n" by auto
  then show ?thesis using assms unfolding tridiagonal_def
    by (intro arg_cong2 [where f = "(\<and>)"] ball_cong) auto
qed

lemma rhs_vector_spec:
  assumes "length vector = n" "length points = n + 1" "2 \<le> n"
  shows "\<exists>v'. rhs_vector c points n vector = Some v' \<and> length v' = n
      \<and> (\<forall>i<n. v' ! i = rhs_spec c points i)"
proof -
  from rhs_vector_Some [OF assms, of c]
  obtain v' where R: "rhs_vector c points n vector = Some v'" and L: "length v' = n"
    and z: "v' ! 0 = c (points ! 0) + 2 * c (points ! 1)"
    and m: "\<forall>k. 1 \<le> k \<and> k < n - 1 \<longrightarrow> v' ! k = 4 * c (points ! k) + 2 * c (points ! (k + 1))"
    and l: "v' ! (n - 1) = (8 * c (points ! (n - 1)) + c (points ! n)) / 2"
    by blast
  have "v' ! i = rhs_spec c points i" if "i < n" for i
  proof -
    have "i = 0 \<or> (1 \<le> i \<and> i < n - 1) \<or> (i = n - 1 \<and> i \<noteq> 0)" using that by linarith
    then consider "i = 0" | "1 \<le> i \<and> i < n - 1" | "i = n - 1 \<and> i \<noteq> 0" by blast
    then show ?thesis
    proof cases
      case 1 then show ?thesis using z assms by (simp add: rhs_spec_def)
    next
      case 2 then show ?thesis using m assms by (simp add: rhs_spec_def)
    next
      case 3 then show ?thesis using l assms by (simp add: rhs_spec_def)
    qed
  qed
  then show ?thesis using R L by blast
qed

lemma solve_axis:
  assumes "length vector = n" "length points = n + 1" "2 \<le> n"
  shows "\<exists>v' x. rhs_vector c points n vector = Some v' \<and> length v' = n
      \<and> firstControlPoints v' = Some x \<and> length x = n
      \<and> tridiagonal (7 / 2) n ((!) x) (rhs_spec c points)"
proof -
  from rhs_vector_spec [OF assms, of c]
  obtain v' where R: "rhs_vector c points n vector = Some v'" and L: "length v' = n"
    and S: "\<forall>i<n. v' ! i = rhs_spec c points i"
    by blast
  have "v' \<noteq> []" using L assms by auto
  from fcp_solves [OF this]
  obtain x where F: "firstControlPoints v' = Some x" and Lx: "length x = length v'"
    and T: "2 \<le> length v' \<longrightarrow> tridiagonal (7 / 2) (length v') ((!) x) ((!) v')"
    by blast
  have "tridiagonal (7 / 2) n ((!) x) ((!) v')" using T L assms by simp
  then have "tridiagonal (7 / 2) n ((!) x) (rhs_spec c points)"
    using tridiagonal_cong [OF assms(3) S, of "(!) x" "(!) x" "7 / 2"] by simp
  then show ?thesis using R L F Lx by simp
qed

lemma calculate_general:
  assumes "length points = n + 1" "2 \<le> n"
  shows "\<exists>vx xc vy yc. rhs_vector xp points n (replicate n 0) = Some vx
      \<and> firstControlPoints vx = Some xc
      \<and> rhs_vector yp points n vx = Some vy
      \<and> firstControlPoints vy = Some yc
      \<and> length xc = n \<and> length yc = n
      \<and> tridiagonal (7 / 2) n ((!) xc) (rhs_spec xp points)
      \<and> tridiagonal (7 / 2) n ((!) yc) (rhs_spec yp points)
      \<and> (\<forall>m. length m = 2 * n \<longrightarrow>
            (\<exists>cs. calculateControlPoints points m = Some cs \<and> length cs = 2 * n
               \<and> (\<forall>k<n. cs ! (2 * k) = \<lparr>xp = xc ! k, yp = yc ! k\<rparr>
                      \<and> cs ! (2 * k + 1) = second_cp points n xc yc k)))"
proof -
  have l0: "length (replicate n (0::real)) = n" by simp
  from solve_axis [OF l0 assms, of xp]
  obtain vx xc where vx: "rhs_vector xp points n (replicate n 0) = Some vx" "length vx = n"
    and xc: "firstControlPoints vx = Some xc" "length xc = n"
    and tx: "tridiagonal (7 / 2) n ((!) xc) (rhs_spec xp points)"
    by (elim exE conjE)
  from solve_axis [OF vx(2) assms, of yp]
  obtain vy yc where vy: "rhs_vector yp points n vx = Some vy" "length vy = n"
    and yc: "firstControlPoints vy = Some yc" "length yc = n"
    and ty: "tridiagonal (7 / 2) n ((!) yc) (rhs_spec yp points)"
    by (elim exE conjE)
  have ne: "points \<noteq> []" "length points - 1 = n" "n \<noteq> 1" using assms by auto
  have run: "calculateControlPoints points m = cp_loop points n xc yc 0 0 m" for m
    unfolding calculateControlPoints_def Let_def ne(2)
    by (simp only: ne(1,3) if_False resize_Nil vx(1) xc(1) vy(1) yc(1) Option.bind.simps)
  have main: "\<forall>m. length m = 2 * n \<longrightarrow>
            (\<exists>cs. calculateControlPoints points m = Some cs \<and> length cs = 2 * n
               \<and> (\<forall>k<n. cs ! (2 * k) = \<lparr>xp = xc ! k, yp = yc ! k\<rparr>
                      \<and> cs ! (2 * k + 1) = second_cp points n xc yc k))"
  proof (intro allI impI)
    fix m :: "QPointF list" assume m: "length m = 2 * n"
    have "0 \<le> n" by simp
    from cp_loop_inv [OF assms(1) xc(2) yc(2) m this]
    obtain m' where r: "cp_loop points n xc yc 0 (2 * 0) m = Some m'" and l: "length m' = 2 * n"
      and f: "\<forall>k<2 * 0. m' ! k = m ! k"
      and e: "\<forall>k. 0 \<le> k \<and> k < n \<longrightarrow> m' ! (2 * k) = \<lparr>xp = xc ! k, yp = yc ! k\<rparr>
             \<and> m' ! (2 * k + 1) = second_cp points n xc yc k"
      by (elim exE conjE)
    have "calculateControlPoints points m = Some m'" using r run [of m] by simp
    moreover have "\<forall>k<n. m' ! (2 * k) = \<lparr>xp = xc ! k, yp = yc ! k\<rparr>
                      \<and> m' ! (2 * k + 1) = second_cp points n xc yc k"
      using e by simp
    ultimately show "\<exists>cs. calculateControlPoints points m = Some cs \<and> length cs = 2 * n
               \<and> (\<forall>k<n. cs ! (2 * k) = \<lparr>xp = xc ! k, yp = yc ! k\<rparr>
                      \<and> cs ! (2 * k + 1) = second_cp points n xc yc k)"
      using l by (intro exI [of _ m'] conjI)
  qed
  show ?thesis
    using vx(1) xc(1) vy(1) yc(1) xc(2) yc(2) tx ty main
    by (intro exI [of _ vx] exI [of _ xc] exI [of _ vy] exI [of _ yc] conjI)
qed

lemma update_general:
  assumes "3 \<le> length points"
  shows "\<exists>vx xc vy yc cs.
        rhs_vector xp points (length points - 1) (replicate (length points - 1) 0) = Some vx
      \<and> firstControlPoints vx = Some xc
      \<and> rhs_vector yp points (length points - 1) vx = Some vy
      \<and> firstControlPoints vy = Some yc
      \<and> length xc = length points - 1 \<and> length yc = length points - 1
      \<and> tridiagonal (7 / 2) (length points - 1) ((!) xc) (rhs_spec xp points)
      \<and> tridiagonal (7 / 2) (length points - 1) ((!) yc) (rhs_spec yp points)
      \<and> length cs = 2 * (length points - 1)
      \<and> (\<forall>k<length points - 1. cs ! (2 * k) = \<lparr>xp = xc ! k, yp = yc ! k\<rparr>
              \<and> cs ! (2 * k + 1) = second_cp points (length points - 1) xc yc k)
      \<and> (\<forall>m. updateControlPoints points m = Some cs)"
proof -
  define n where "n = length points - 1"
  have n: "length points = n + 1" "2 \<le> n" "2 * length points - 2 = 2 * n"
    using assms by (simp_all add: n_def)
  from calculate_general [OF n(1,2)]
  obtain vx xc vy yc where V: "rhs_vector xp points n (replicate n 0) = Some vx"
      "firstControlPoints vx = Some xc" "rhs_vector yp points n vx = Some vy"
      "firstControlPoints vy = Some yc"
    and L: "length xc = n" "length yc = n"
    and T: "tridiagonal (7 / 2) n ((!) xc) (rhs_spec xp points)"
      "tridiagonal (7 / 2) n ((!) yc) (rhs_spec yp points)"
    and C: "\<forall>m. length m = 2 * n \<longrightarrow>
            (\<exists>cs. calculateControlPoints points m = Some cs \<and> length cs = 2 * n
               \<and> (\<forall>k<n. cs ! (2 * k) = \<lparr>xp = xc ! k, yp = yc ! k\<rparr>
                      \<and> cs ! (2 * k + 1) = second_cp points n xc yc k))"
    by (elim exE conjE)
  have U: "\<exists>cs. updateControlPoints points m = Some cs \<and> length cs = 2 * n
               \<and> (\<forall>k<n. cs ! (2 * k) = \<lparr>xp = xc ! k, yp = yc ! k\<rparr>
                      \<and> cs ! (2 * k + 1) = second_cp points n xc yc k)" for m
  proof -
    have "length (resize \<lparr>xp = 0, yp = 0\<rparr> m (2 * length points - 2)) = 2 * n"
      using n by simp
    moreover have "updateControlPoints points m =
        calculateControlPoints points (resize \<lparr>xp = 0, yp = 0\<rparr> m (2 * length points - 2))"
      using assms by (simp add: updateControlPoints_def)
    ultimately show ?thesis using C [rule_format, of "resize \<lparr>xp = 0, yp = 0\<rparr> m (2 * length points - 2)"]
      by simp
  qed
  from U [of "[]"] obtain cs where cs: "updateControlPoints points [] = Some cs" "length cs = 2 * n"
    and E: "\<forall>k<n. cs ! (2 * k) = \<lparr>xp = xc ! k, yp = yc ! k\<rparr>
                      \<and> cs ! (2 * k + 1) = second_cp points n xc yc k"
    by (elim exE conjE)
  have all: "\<forall>m. updateControlPoints points m = Some cs"
  proof
    fix m
    from U [of m] obtain cs' where cs': "updateControlPoints points m = Some cs'" "length cs' = 2 * n"
      and E': "\<forall>k<n. cs' ! (2 * k) = \<lparr>xp = xc ! k, yp = yc ! k\<rparr>
                      \<and> cs' ! (2 * k + 1) = second_cp points n xc yc k"
      by (elim exE conjE)
    have "cs' ! j = cs ! j" if "j < 2 * n" for j
    proof (cases "even j")
      case True
      then obtain k where "j = 2 * k" by (auto elim: evenE)
      then show ?thesis using E E' that by simp
    next
      case False
      then obtain k where "j = 2 * k + 1" by (auto elim: oddE)
      then show ?thesis using E E' that by simp
    qed
    then have "cs' = cs" using cs cs' by (simp add: nth_equalityI)
    then show "updateControlPoints points m = Some cs" using cs' by simp
  qed
  show ?thesis
    using V L T cs(2) E all unfolding n_def
    by (intro exI [of _ vx] exI [of _ xc] exI [of _ vy] exI [of _ yc] exI [of _ cs] conjI)
qed

lemma update_two_points:
  "updateControlPoints [p0, p1] m =
     Some [\<lparr>xp = (2 * xp p0 + xp p1) / 3, yp = (2 * yp p0 + yp p1) / 3\<rparr>,
           \<lparr>xp = 2 * ((2 * xp p0 + xp p1) / 3) - xp p0,
            yp = 2 * ((2 * yp p0 + yp p1) / 3) - yp p0\<rparr>]"
proof -
  have "length (resize \<lparr>xp = 0, yp = 0\<rparr> m 2) = 2" by simp
  then obtain u v where uv: "resize \<lparr>xp = 0, yp = 0\<rparr> m 2 = [u, v]"
    by (metis (no_types, opaque_lifting) One_nat_def Suc_1 length_0_conv length_Suc_conv)
  show ?thesis
    by (simp add: updateControlPoints_def calculateControlPoints_def uv)
qed

text \<open>
  Claim C3. For a point sequence of length exactly 2 the update stores the single
  closed-form pair \<open>cp1 = (2 P0 + P1) / 3\<close>, \<open>cp2 = 2 cp1 - P0\<close>, componentwise, whatever the
  buffer held before; this is the branch \<open>n = 1\<close> of \<open>calculateControlPoints\<close>, which returns
  before \<open>firstControlPoints\<close> is called. For \<open>P0 = (0, 0)\<close> and \<open>P1 = (3, 9)\<close> the pair is
  \<open>(1, 3)\<close>, \<open>(2, 6)\<close>.
\<close>
theorem two_points_closed_form:
  "updateControlPoints [p0, p1] m =
     Some [\<lparr>xp = (2 * xp p0 + xp p1) / 3, yp = (2 * yp p0 + yp p1) / 3\<rparr>,
           \<lparr>xp = 2 * ((2 * xp p0 + xp p1) / 3) - xp p0,
            yp = 2 * ((2 * yp p0 + yp p1) / 3) - yp p0\<rparr>]
   \<and> updateControlPoints [\<lparr>xp = 0, yp = 0\<rparr>, \<lparr>xp = 3, yp = 9\<rparr>] m =
     Some [\<lparr>xp = 1, yp = 3\<rparr>, \<lparr>xp = 2, yp = 6\<rparr>]"
  by (simp add: update_two_points)

lemma update_count:
  assumes "2 \<le> length points"
  shows "\<exists>cs. updateControlPoints points m = Some cs
      \<and> length cs = 2 * (length points - 1)
      \<and> (\<forall>m'. updateControlPoints points m' = Some cs)
      \<and> (length points = 2 \<longrightarrow>
            cp1 cs 0 = \<lparr>xp = (2 * xp (points ! 0) + xp (points ! 1)) / 3,
                        yp = (2 * yp (points ! 0) + yp (points ! 1)) / 3\<rparr>
          \<and> cp2 cs 0 = \<lparr>xp = 2 * xp (cp1 cs 0) - xp (points ! 0),
                        yp = 2 * yp (cp1 cs 0) - yp (points ! 0)\<rparr>)
      \<and> (3 \<le> length points \<longrightarrow>
            (\<exists>vx xc vy yc.
                rhs_vector xp points (length points - 1) (resize 0 [] (length points - 1)) = Some vx
              \<and> firstControlPoints vx = Some xc
              \<and> rhs_vector yp points (length points - 1) vx = Some vy
              \<and> firstControlPoints vy = Some yc
              \<and> (\<forall>i<length points - 1. cp1 cs i = \<lparr>xp = xc ! i, yp = yc ! i\<rparr>)
              \<and> (\<forall>i<length points - 2. cp2 cs i =
                    \<lparr>xp = 2 * xp (points ! (i + 1)) - xc ! (i + 1),
                     yp = 2 * yp (points ! (i + 1)) - yc ! (i + 1)\<rparr>)
              \<and> cp2 cs (length points - 2) =
                    \<lparr>xp = (xp (points ! (length points - 1)) + xc ! (length points - 2)) / 2,
                     yp = (yp (points ! (length points - 1)) + yc ! (length points - 2)) / 2\<rparr>))"
proof (cases "length points = 2")
  case True
  then obtain p0 p1 where "points = [p0, p1]"
    by (metis (no_types, opaque_lifting) One_nat_def Suc_1 length_0_conv length_Suc_conv)
  then show ?thesis by (simp add: update_two_points cp1_def cp2_def)
next
  case False
  then have three: "3 \<le> length points" using assms by simp
  define n where "n = length points - 1"
  have n: "2 \<le> n" "length points - 2 = n - 1" using three by (simp_all add: n_def)
  from update_general [OF three, folded n_def]
  obtain vx xc vy yc cs where V: "rhs_vector xp points n (replicate n 0) = Some vx"
      "firstControlPoints vx = Some xc" "rhs_vector yp points n vx = Some vy"
      "firstControlPoints vy = Some yc"
    and Lc: "length cs = 2 * n"
    and E: "\<forall>k<n. cs ! (2 * k) = \<lparr>xp = xc ! k, yp = yc ! k\<rparr>
              \<and> cs ! (2 * k + 1) = second_cp points n xc yc k"
    and U: "\<forall>m. updateControlPoints points m = Some cs"
    by (elim exE conjE)
  have V1: "rhs_vector xp points n (resize 0 [] n) = Some vx" using V(1) by simp
  have a: "\<forall>i<n. cp1 cs i = \<lparr>xp = xc ! i, yp = yc ! i\<rparr>"
    using E by (simp add: cp1_def)
  have b: "\<forall>i<n - 1. cp2 cs i =
                    \<lparr>xp = 2 * xp (points ! (i + 1)) - xc ! (i + 1),
                     yp = 2 * yp (points ! (i + 1)) - yc ! (i + 1)\<rparr>"
  proof (intro allI impI)
    fix i assume i: "i < n - 1"
    then have "i < n" by simp
    then have "cs ! (2 * i + 1) = second_cp points n xc yc i" using E by blast
    then show "cp2 cs i =
                    \<lparr>xp = 2 * xp (points ! (i + 1)) - xc ! (i + 1),
                     yp = 2 * yp (points ! (i + 1)) - yc ! (i + 1)\<rparr>"
      using i by (simp add: cp2_def second_cp_def)
  qed
  have c: "cp2 cs (n - 1) =
                    \<lparr>xp = (xp (points ! n) + xc ! (n - 1)) / 2,
                     yp = (yp (points ! n) + yc ! (n - 1)) / 2\<rparr>"
  proof -
    have "n - 1 < n" using n by simp
    then have "cs ! (2 * (n - 1) + 1) = second_cp points n xc yc (n - 1)" using E by blast
    then show ?thesis by (simp add: cp2_def second_cp_def)
  qed
  have solver: "3 \<le> length points \<longrightarrow> (\<exists>vx xc vy yc.
                rhs_vector xp points n (resize 0 [] n) = Some vx
              \<and> firstControlPoints vx = Some xc
              \<and> rhs_vector yp points n vx = Some vy
              \<and> firstControlPoints vy = Some yc
              \<and> (\<forall>i<n. cp1 cs i = \<lparr>xp = xc ! i, yp = yc ! i\<rparr>)
              \<and> (\<forall>i<n - 1. cp2 cs i =
                    \<lparr>xp = 2 * xp (points ! (i + 1)) - xc ! (i + 1),
                     yp = 2 * yp (points ! (i + 1)) - yc ! (i + 1)\<rparr>)
              \<and> cp2 cs (n - 1) =
                    \<lparr>xp = (xp (points ! n) + xc ! (n - 1)) / 2,
                     yp = (yp (points ! n) + yc ! (n - 1)) / 2\<rparr>)"
    using V1 V(2-4) a b c
    by (intro impI exI [of _ vx] exI [of _ xc] exI [of _ vy] exI [of _ yc] conjI)
  have two: "length points = 2 \<longrightarrow>
            cp1 cs 0 = \<lparr>xp = (2 * xp (points ! 0) + xp (points ! 1)) / 3,
                        yp = (2 * yp (points ! 0) + yp (points ! 1)) / 3\<rparr>
          \<and> cp2 cs 0 = \<lparr>xp = 2 * xp (cp1 cs 0) - xp (points ! 0),
                        yp = 2 * yp (cp1 cs 0) - yp (points ! 0)\<rparr>"
    using False by simp
  show ?thesis
    unfolding n(2) n_def [symmetric]
    using U [rule_format, of m] Lc U two solver
    by (intro exI [of _ cs] conjI)
qed

text \<open>
  Claim C2. For a point sequence of length at least 2 the update succeeds and leaves a
  buffer of exactly \<open>2 * (length points - 1)\<close> entries, one pair per segment, in segment
  order: the pair of segment \<open>i\<close> is at the indices \<open>2 * i\<close> (\<open>cp1\<close>) and \<open>2 * i + 1\<close> (\<open>cp2\<close>).
  For two points the one pair is the closed form. For three points or more, with \<open>xc\<close>
  and \<open>yc\<close> the vectors that \<open>firstControlPoints\<close> returns for the right-hand sides of the x
  and of the y coordinates, \<open>cp1 i\<close> is the point \<open>(xc i, yc i)\<close> and \<open>cp2 i\<close> is computed from
  the entry \<open>i + 1\<close> of the two vectors and the point \<open>i + 1\<close> (from the last entry and the
  last point, for the last segment). Every entry is written: the buffer after the update
  is the same whatever buffer the series held before.
\<close>
theorem control_point_count:
  assumes "2 \<le> length points"
  shows "\<exists>cs. updateControlPoints points m = Some cs
      \<and> length cs = 2 * (length points - 1)
      \<and> (\<forall>m'. updateControlPoints points m' = Some cs)
      \<and> (length points = 2 \<longrightarrow>
            cp1 cs 0 = \<lparr>xp = (2 * xp (points ! 0) + xp (points ! 1)) / 3,
                        yp = (2 * yp (points ! 0) + yp (points ! 1)) / 3\<rparr>
          \<and> cp2 cs 0 = \<lparr>xp = 2 * xp (cp1 cs 0) - xp (points ! 0),
                        yp = 2 * yp (cp1 cs 0) - yp (points ! 0)\<rparr>)
      \<and> (3 \<le> length points \<longrightarrow>
            (\<exists>vx xc vy yc.
                rhs_vector xp points (length points - 1) (resize 0 [] (length points - 1)) = Some vx
              \<and> firstControlPoints vx = Some xc
              \<and> rhs_vector yp points (length points - 1) vx = Some vy
              \<and> firstControlPoints vy = Some yc
              \<and> (\<forall>i<length points - 1. cp1 cs i = \<lparr>xp = xc ! i, yp = yc ! i\<rparr>)
              \<and> (\<forall>i<length points - 2. cp2 cs i =
                    \<lparr>xp = 2 * xp (points ! (i + 1)) - xc ! (i + 1),
                     yp = 2 * yp (points ! (i + 1)) - yc ! (i + 1)\<rparr>)
              \<and> cp2 cs (length points - 2) =
                    \<lparr>xp = (xp (points ! (length points - 1)) + xc ! (length points - 2)) / 2,
                     yp = (yp (points ! (length points - 1)) + yc ! (length points - 2)) / 2\<rparr>))"
  using update_count [OF assms] .

theorem control_point_count_witness:
  "2 \<le> length [\<lparr>xp = 0, yp = 0\<rparr>, \<lparr>xp = 1, yp = 2\<rparr>, \<lparr>xp = 2, yp = 0\<rparr>]
   \<and> (\<exists>cs. updateControlPoints [\<lparr>xp = 0, yp = 0\<rparr>, \<lparr>xp = 1, yp = 2\<rparr>, \<lparr>xp = 2, yp = 0\<rparr>] [] = Some cs
         \<and> length cs = 4
         \<and> (\<exists>xc yc. firstControlPoints [2, 5] = Some xc \<and> firstControlPoints [4, 8] = Some yc
               \<and> cp1 cs 0 = \<lparr>xp = xc ! 0, yp = yc ! 0\<rparr> \<and> cp1 cs 1 = \<lparr>xp = xc ! 1, yp = yc ! 1\<rparr>
               \<and> cp2 cs 0 = \<lparr>xp = 2 * 1 - xc ! 1, yp = 2 * 2 - yc ! 1\<rparr>
               \<and> cp2 cs 1 = \<lparr>xp = (2 + xc ! 1) / 2, yp = (0 + yc ! 1) / 2\<rparr>))"
proof -
  define P where "P = [\<lparr>xp = 0, yp = 0\<rparr>, \<lparr>xp = 1, yp = 2\<rparr>, \<lparr>xp = 2, yp = 0 :: real\<rparr>]"
  have l: "2 \<le> length P" "3 \<le> length P" "length P - 1 = 2" "length P - 2 = 1"
    by (simp_all add: P_def)
  from control_point_count [OF l(1), of "[]"]
  obtain cs where run: "updateControlPoints P [] = Some cs"
    and len: "length cs = 2 * (length P - 1)"
    and S: "3 \<le> length P \<longrightarrow>
            (\<exists>vx xc vy yc.
                rhs_vector xp P (length P - 1) (resize 0 [] (length P - 1)) = Some vx
              \<and> firstControlPoints vx = Some xc
              \<and> rhs_vector yp P (length P - 1) vx = Some vy
              \<and> firstControlPoints vy = Some yc
              \<and> (\<forall>i<length P - 1. cp1 cs i = \<lparr>xp = xc ! i, yp = yc ! i\<rparr>)
              \<and> (\<forall>i<length P - 2. cp2 cs i =
                    \<lparr>xp = 2 * xp (P ! (i + 1)) - xc ! (i + 1),
                     yp = 2 * yp (P ! (i + 1)) - yc ! (i + 1)\<rparr>)
              \<and> cp2 cs (length P - 2) =
                    \<lparr>xp = (xp (P ! (length P - 1)) + xc ! (length P - 2)) / 2,
                     yp = (yp (P ! (length P - 1)) + yc ! (length P - 2)) / 2\<rparr>)"
    by (elim exE conjE)
  from S [rule_format, OF l(2)]
  obtain vx xc vy yc where V: "rhs_vector xp P (length P - 1) (resize 0 [] (length P - 1)) = Some vx"
      "firstControlPoints vx = Some xc"
      "rhs_vector yp P (length P - 1) vx = Some vy"
      "firstControlPoints vy = Some yc"
    and A: "\<forall>i<length P - 1. cp1 cs i = \<lparr>xp = xc ! i, yp = yc ! i\<rparr>"
    and B: "\<forall>i<length P - 2. cp2 cs i =
                    \<lparr>xp = 2 * xp (P ! (i + 1)) - xc ! (i + 1),
                     yp = 2 * yp (P ! (i + 1)) - yc ! (i + 1)\<rparr>"
    and C: "cp2 cs (length P - 2) =
                    \<lparr>xp = (xp (P ! (length P - 1)) + xc ! (length P - 2)) / 2,
                     yp = (yp (P ! (length P - 1)) + yc ! (length P - 2)) / 2\<rparr>"
    by (elim exE conjE)
  have vx: "vx = [2, 5]"
    using V(1) unfolding l(3) by (simp add: P_def rhs_vector_def rhs_loop.simps eval_nat_numeral)
  have vy: "vy = [4, 8]"
    using V(3) unfolding l(3) vx by (simp add: P_def rhs_vector_def rhs_loop.simps)
  have a0: "cp1 cs 0 = \<lparr>xp = xc ! 0, yp = yc ! 0\<rparr>" and a1: "cp1 cs 1 = \<lparr>xp = xc ! 1, yp = yc ! 1\<rparr>"
    using A unfolding l(3) by simp_all
  have b0: "cp2 cs 0 = \<lparr>xp = 2 * 1 - xc ! 1, yp = 2 * 2 - yc ! 1\<rparr>"
    using B unfolding l(4) by (simp add: P_def)
  have c1: "cp2 cs 1 = \<lparr>xp = (2 + xc ! 1) / 2, yp = (0 + yc ! 1) / 2\<rparr>"
    using C unfolding l(3) l(4) by (simp add: P_def)
  have "length cs = 4" using len unfolding l(3) by simp
  then show ?thesis
    using run V(2,4) a0 a1 b0 c1 l(1) unfolding vx vy P_def by auto
qed

text \<open>
  Claim C4. For a point sequence of length at least 3, with \<open>n = length points - 1\<close>
  segments: \<open>cp2 i = 2 P (i + 1) - cp1 (i + 1)\<close> for every segment \<open>i < n - 1\<close>, and
  \<open>cp2 (n - 1) = (P n + cp1 (n - 1)) / 2\<close> for the last one, componentwise.
\<close>
theorem second_control_points:
  assumes "3 \<le> length points"
  shows "\<exists>cs. updateControlPoints points m = Some cs
      \<and> (\<forall>i<length points - 2. cp2 cs i =
            \<lparr>xp = 2 * xp (points ! (i + 1)) - xp (cp1 cs (i + 1)),
             yp = 2 * yp (points ! (i + 1)) - yp (cp1 cs (i + 1))\<rparr>)
      \<and> cp2 cs (length points - 2) =
            \<lparr>xp = (xp (points ! (length points - 1)) + xp (cp1 cs (length points - 2))) / 2,
             yp = (yp (points ! (length points - 1)) + yp (cp1 cs (length points - 2))) / 2\<rparr>"
proof -
  define n where "n = length points - 1"
  have n: "2 \<le> n" "length points - 2 = n - 1" using assms by (simp_all add: n_def)
  from update_general [OF assms, folded n_def]
  obtain xc yc cs where
    E: "\<forall>k<n. cs ! (2 * k) = \<lparr>xp = xc ! k, yp = yc ! k\<rparr>
              \<and> cs ! (2 * k + 1) = second_cp points n xc yc k"
    and U: "\<forall>m. updateControlPoints points m = Some cs"
    by (elim exE conjE)
  have a: "cp2 cs i = \<lparr>xp = 2 * xp (points ! (i + 1)) - xp (cp1 cs (i + 1)),
             yp = 2 * yp (points ! (i + 1)) - yp (cp1 cs (i + 1))\<rparr>" if "i < n - 1" for i
  proof -
    have "i < n" "i + 1 < n" using that by simp_all
    then have "cs ! (2 * i + 1) = second_cp points n xc yc i"
      "cs ! (2 * (i + 1)) = \<lparr>xp = xc ! (i + 1), yp = yc ! (i + 1)\<rparr>"
      using E by blast+
    then show ?thesis using that by (simp add: cp1_def cp2_def second_cp_def)
  qed
  have b: "cp2 cs (n - 1) = \<lparr>xp = (xp (points ! n) + xp (cp1 cs (n - 1))) / 2,
             yp = (yp (points ! n) + yp (cp1 cs (n - 1))) / 2\<rparr>"
  proof -
    have "n - 1 < n" using n by simp
    then have "cs ! (2 * (n - 1) + 1) = second_cp points n xc yc (n - 1)"
      "cs ! (2 * (n - 1)) = \<lparr>xp = xc ! (n - 1), yp = yc ! (n - 1)\<rparr>"
      using E by blast+
    then show ?thesis by (simp add: cp1_def cp2_def second_cp_def)
  qed
  show ?thesis using U a b unfolding n(2) n_def [symmetric] by simp
qed

theorem second_control_points_witness:
  "3 \<le> length [\<lparr>xp = 0, yp = 0\<rparr>, \<lparr>xp = 1, yp = 2\<rparr>, \<lparr>xp = 2, yp = 0\<rparr>]
   \<and> (\<exists>cs. updateControlPoints [\<lparr>xp = 0, yp = 0\<rparr>, \<lparr>xp = 1, yp = 2\<rparr>, \<lparr>xp = 2, yp = 0\<rparr>] [] = Some cs
         \<and> cp2 cs 0 = \<lparr>xp = 2 * 1 - xp (cp1 cs 1), yp = 2 * 2 - yp (cp1 cs 1)\<rparr>
         \<and> cp2 cs 1 = \<lparr>xp = (2 + xp (cp1 cs 1)) / 2, yp = (0 + yp (cp1 cs 1)) / 2\<rparr>)"
  using second_control_points [of "[\<lparr>xp = 0, yp = 0\<rparr>, \<lparr>xp = 1, yp = 2\<rparr>, \<lparr>xp = 2, yp = 0\<rparr>]" "[]"]
  by auto

lemmas eval_spline = updateControlPoints_def calculateControlPoints_def rhs_vector_def
  rhs_loop.simps firstControlPoints_def fcp_eliminate_def fcp_forward.simps fcp_forward_body_def
  fcp_backward.simps fcp_backward_body_def cp_loop.simps cp_body_def

lemma three_points_run:
  "updateControlPoints [\<lparr>xp = 0, yp = 0\<rparr>, \<lparr>xp = 1, yp = 2\<rparr>, \<lparr>xp = 2, yp = 0\<rparr>] [] =
     Some [\<lparr>xp = 1 / 3, yp = 1\<rparr>, \<lparr>xp = 2 / 3, yp = 2\<rparr>,
           \<lparr>xp = 4 / 3, yp = 2\<rparr>, \<lparr>xp = 5 / 3, yp = 1\<rparr>]"
  by (simp add: eval_spline eval_nat_numeral)

text \<open>
  Claim C1 as stated fails. For the points \<open>(0, 0)\<close>, \<open>(1, 2)\<close>, \<open>(2, 0)\<close> the first control
  points have the x coordinates \<open>1/3\<close> and \<open>4/3\<close>; with the last diagonal entry \<open>7\<close>, the
  off-diagonal \<open>1\<close> and the halved right-hand side \<open>(8 P1 + P2) / 2 = 5\<close>, the last equation
  would read \<open>1/3 + 7 * 4/3 = 5\<close>.
\<close>
theorem first_control_points_counterexample:
  "updateControlPoints [\<lparr>xp = 0, yp = 0\<rparr>, \<lparr>xp = 1, yp = 2\<rparr>, \<lparr>xp = 2, yp = 0\<rparr>] [] =
     Some [\<lparr>xp = 1 / 3, yp = 1\<rparr>, \<lparr>xp = 2 / 3, yp = 2\<rparr>,
           \<lparr>xp = 4 / 3, yp = 2\<rparr>, \<lparr>xp = 5 / 3, yp = 1\<rparr>]
   \<and> \<not> tridiagonal 7 2
        (xp \<circ> cp1 [\<lparr>xp = 1 / 3, yp = 1\<rparr>, \<lparr>xp = 2 / 3, yp = 2\<rparr>,
                   \<lparr>xp = 4 / 3, yp = 2\<rparr>, \<lparr>xp = 5 / 3, yp = 1\<rparr>])
        (rhs_spec xp [\<lparr>xp = 0, yp = 0\<rparr>, \<lparr>xp = 1, yp = 2\<rparr>, \<lparr>xp = 2, yp = 0\<rparr>])"
  by (simp add: three_points_run tridiagonal_def cp1_def rhs_spec_def)

lemma tridiagonal_zero:
  assumes n: "2 \<le> n" and T: "tridiagonal (7 / 2) n z (\<lambda>i. 0)" and i: "i < n"
  shows "z i = 0"
proof -
  have r0: "2 * z 0 + z 1 = 0" using T by (simp add: tridiagonal_def)
  have rows: "z (k - 1) + 4 * z k + z (k + 1) = 0" if "1 \<le> k" "k < n - 1" for k
    using T that by (simp add: tridiagonal_def)
  have last: "z (n - 2) + 7 / 2 * z (n - 1) = 0" using T by (simp add: tridiagonal_def)
  have grow: "k + 1 < n \<Longrightarrow> 2 * \<bar>z k\<bar> \<le> \<bar>z (k + 1)\<bar>" for k
  proof (induction k)
    case 0
    then show ?case using r0 by simp
  next
    case (Suc k)
    then have ih: "2 * \<bar>z k\<bar> \<le> \<bar>z (k + 1)\<bar>" by simp
    have "z (Suc k - 1) + 4 * z (Suc k) + z (Suc k + 1) = 0"
      using rows [of "Suc k"] Suc.prems by simp
    then have "z k + 4 * z (k + 1) + z (Suc k + 1) = 0" by simp
    then show ?case using ih by simp
  qed
  have "n - 2 + 1 = n - 1" using n by simp
  then have "2 * \<bar>z (n - 2)\<bar> \<le> \<bar>z (n - 1)\<bar>" using grow [of "n - 2"] n by simp
  then have zl: "z (n - 1) = 0" using last by simp
  have down: "j < n \<Longrightarrow> z (n - 1 - j) = 0" for j
  proof (induction j)
    case 0
    then show ?case using zl by simp
  next
    case (Suc j)
    then have ih: "z (n - 1 - j) = 0" by simp
    have "n - 1 - Suc j + 1 = n - 1 - j" using Suc.prems by simp
    then have "2 * \<bar>z (n - 1 - Suc j)\<bar> \<le> \<bar>z (n - 1 - j)\<bar>"
      using grow [of "n - 1 - Suc j"] Suc.prems by simp
    then show ?case using ih by simp
  qed
  have "n - 1 - (n - 1 - i) = i" using i by simp
  then show ?thesis using down [of "n - 1 - i"] i by simp
qed

lemma tridiagonal_unique:
  assumes "2 \<le> n" "tridiagonal (7 / 2) n x b" "tridiagonal (7 / 2) n y b" "i < n"
  shows "x i = y i"
proof -
  have "tridiagonal (7 / 2) n (\<lambda>i. x i - y i) (\<lambda>i. 0)"
    using assms(2,3) unfolding tridiagonal_def
    by (intro conjI ballI) (simp_all add: algebra_simps)
  from tridiagonal_zero [OF assms(1) this assms(4)] show ?thesis by simp
qed

text \<open>
  Claim C1, amended. For a point sequence of length at least 3 the first control points,
  per axis, are the one and only solution of the tridiagonal system with the diagonal
  \<open>2, 4, \<dots>, 4, 7/2\<close>, the off-diagonals \<open>1\<close> and the right-hand side of the specification
  (whose last entry is halved). This is the last row \<open>2, 7\<close> with the right-hand side
  \<open>8 P (n - 1) + P n\<close> of the comment in the code, divided by 2.
\<close>
theorem first_control_points_system:
  assumes "3 \<le> length points"
  shows "\<exists>cs. updateControlPoints points m = Some cs
      \<and> tridiagonal (7 / 2) (length points - 1) (xp \<circ> cp1 cs) (rhs_spec xp points)
      \<and> tridiagonal (7 / 2) (length points - 1) (yp \<circ> cp1 cs) (rhs_spec yp points)
      \<and> (\<forall>x. tridiagonal (7 / 2) (length points - 1) x (rhs_spec xp points) \<longrightarrow>
             (\<forall>i<length points - 1. x i = xp (cp1 cs i)))
      \<and> (\<forall>y. tridiagonal (7 / 2) (length points - 1) y (rhs_spec yp points) \<longrightarrow>
             (\<forall>i<length points - 1. y i = yp (cp1 cs i)))"
proof -
  define n where "n = length points - 1"
  have n: "2 \<le> n" using assms by (simp add: n_def)
  from update_general [OF assms, folded n_def]
  obtain xc yc cs where
    T: "tridiagonal (7 / 2) n ((!) xc) (rhs_spec xp points)"
      "tridiagonal (7 / 2) n ((!) yc) (rhs_spec yp points)"
    and E: "\<forall>k<n. cs ! (2 * k) = \<lparr>xp = xc ! k, yp = yc ! k\<rparr>
              \<and> cs ! (2 * k + 1) = second_cp points n xc yc k"
    and U: "\<forall>m. updateControlPoints points m = Some cs"
    by (elim exE conjE)
  have ex: "\<forall>i<n. (xp \<circ> cp1 cs) i = xc ! i" and ey: "\<forall>i<n. (yp \<circ> cp1 cs) i = yc ! i"
    using E by (simp_all add: cp1_def)
  have tx: "tridiagonal (7 / 2) n (xp \<circ> cp1 cs) (rhs_spec xp points)"
    using tridiagonal_cong [where b = "rhs_spec xp points" and b' = "rhs_spec xp points"
        and d = "7 / 2", OF n _ ex] T(1) by (simp add: comp_def)
  have ty: "tridiagonal (7 / 2) n (yp \<circ> cp1 cs) (rhs_spec yp points)"
    using tridiagonal_cong [where b = "rhs_spec yp points" and b' = "rhs_spec yp points"
        and d = "7 / 2", OF n _ ey] T(2) by (simp add: comp_def)
  have ux: "\<forall>x. tridiagonal (7 / 2) n x (rhs_spec xp points) \<longrightarrow> (\<forall>i<n. x i = xp (cp1 cs i))"
    using tridiagonal_unique [OF n _ tx] by auto
  have uy: "\<forall>y. tridiagonal (7 / 2) n y (rhs_spec yp points) \<longrightarrow> (\<forall>i<n. y i = yp (cp1 cs i))"
    using tridiagonal_unique [OF n _ ty] by auto
  show ?thesis
    using U [rule_format, of m] tx ty ux uy unfolding n_def by (intro exI [of _ cs] conjI)
qed

theorem first_control_points_system_witness:
  "3 \<le> length [\<lparr>xp = 0, yp = 0\<rparr>, \<lparr>xp = 1, yp = 2\<rparr>, \<lparr>xp = 2, yp = 0\<rparr>]
   \<and> (\<exists>cs. updateControlPoints [\<lparr>xp = 0, yp = 0\<rparr>, \<lparr>xp = 1, yp = 2\<rparr>, \<lparr>xp = 2, yp = 0\<rparr>] [] = Some cs
         \<and> tridiagonal (7 / 2) 2 (xp \<circ> cp1 cs)
              (rhs_spec xp [\<lparr>xp = 0, yp = 0\<rparr>, \<lparr>xp = 1, yp = 2\<rparr>, \<lparr>xp = 2, yp = 0\<rparr>])
         \<and> tridiagonal (7 / 2) 2 (yp \<circ> cp1 cs)
              (rhs_spec yp [\<lparr>xp = 0, yp = 0\<rparr>, \<lparr>xp = 1, yp = 2\<rparr>, \<lparr>xp = 2, yp = 0\<rparr>]))"
  using first_control_points_system [of "[\<lparr>xp = 0, yp = 0\<rparr>, \<lparr>xp = 1, yp = 2\<rparr>, \<lparr>xp = 2, yp = 0\<rparr>]" "[]"]
  by (auto simp: numeral_2_eq_2)

text \<open>
  Claim C10. For every non-empty input vector the forward elimination and the whole
  of \<open>firstControlPoints\<close> return a result, so no divisor is zero. The pivot \<open>b\<close> starts
  at \<open>2\<close>; every stored reciprocal \<open>temp ! i\<close> lies in \<open>(0, 1/2]\<close> (\<open>temp ! 1 = 1/2\<close>, and
  \<open>temp ! (i + 1)\<close> is the reciprocal of the pivot \<open>4 - temp ! i\<close>); every pivot computed by
  the loop, \<open>4\<close> or \<open>7/2\<close> minus \<open>temp ! i\<close>, is at least \<open>3\<close>.
\<close>
theorem elimination_pivots:
  assumes "vector \<noteq> []"
  shows "\<exists>b result temp x. fcp_eliminate vector = Some (b, result, temp)
      \<and> (\<forall>i\<in>{1..<length vector}. 0 < temp ! i \<and> temp ! i \<le> 1 / 2
            \<and> 3 \<le> (if i < length vector - 1 then 4 else 7 / 2) - temp ! i)
      \<and> (\<forall>i\<in>{1..<length vector - 1}. temp ! (i + 1) * (4 - temp ! i) = 1)
      \<and> (2 \<le> length vector \<longrightarrow> temp ! 1 = 1 / 2 \<and> b = 7 / 2 - temp ! (length vector - 1))
      \<and> (length vector = 1 \<longrightarrow> b = 2)
      \<and> firstControlPoints vector = Some x \<and> length x = length vector"
proof -
  define count where "count = length vector"
  from fcp_eliminate_inv [OF assms, folded count_def]
  obtain b d t where el: "fcp_eliminate vector = Some (b, d, t)"
    and B: "1 < count \<longrightarrow> 3 \<le> b \<and> b = diag count (count - 1) - t ! (count - 1)"
      "1 = count \<longrightarrow> b = 2"
    and t1: "1 < count \<longrightarrow> t ! 1 = 1 / 2"
    and P0: "\<forall>k. 1 \<le> k \<and> k < count \<longrightarrow> 0 < t ! k \<and> t ! k \<le> 1 / 2
            \<and> d ! k * (diag count k - t ! k) = vector ! k - d ! (k - 1)"
    and Q: "\<forall>k. 1 \<le> k \<and> k + 1 < count \<longrightarrow> t ! (k + 1) * (diag count k - t ! k) = 1"
    by (elim exE conjE)
  from fcp_solves [OF assms, folded count_def]
  obtain x where x: "firstControlPoints vector = Some x" "length x = count"
    by (elim exE conjE)
  have a: "\<forall>i\<in>{1..<count}. 0 < t ! i \<and> t ! i \<le> 1 / 2
            \<and> 3 \<le> (if i < count - 1 then 4 else 7 / 2) - t ! i"
  proof
    fix i assume "i \<in> {1..<count}"
    then have "0 < t ! i \<and> t ! i \<le> 1 / 2" using P0 by simp
    then show "0 < t ! i \<and> t ! i \<le> 1 / 2 \<and> 3 \<le> (if i < count - 1 then 4 else 7 / 2) - t ! i"
      by simp
  qed
  have q: "\<forall>i\<in>{1..<count - 1}. t ! (i + 1) * (4 - t ! i) = 1"
  proof
    fix i assume i: "i \<in> {1..<count - 1}"
    then have "1 \<le> i \<and> i + 1 < count" by auto
    then have "t ! (i + 1) * (diag count i - t ! i) = 1" using Q by blast
    then show "t ! (i + 1) * (4 - t ! i) = 1" using i by (simp add: diag_def)
  qed
  have c: "2 \<le> count \<longrightarrow> t ! 1 = 1 / 2 \<and> b = 7 / 2 - t ! (count - 1)"
    using B t1 by (simp add: diag_def)
  have e: "count = 1 \<longrightarrow> b = 2" using B by simp
  show ?thesis
    using el a q c e x unfolding count_def
    by (intro exI [of _ b] exI [of _ d] exI [of _ t] exI [of _ x] conjI)
qed

theorem elimination_pivots_witness:
  "[2, 16, 5 :: real] \<noteq> []
   \<and> (\<exists>b result temp x. fcp_eliminate [2, 16, 5] = Some (b, result, temp)
        \<and> temp = [0, 1 / 2, 2 / 7] \<and> b = 45 / 14
        \<and> firstControlPoints [2, 16, 5] = Some x)"
  using elimination_pivots [of "[2, 16, 5]"]
  by (auto simp: fcp_eliminate_def fcp_forward.simps fcp_forward_body_def eval_nat_numeral)

lemma emit_update:
  "emit sg s = map_option (\<lambda>m. s\<lparr>m_controlPoints := m\<rparr>)
     (updateControlPoints (m_points s) (m_controlPoints s))"
  by (cases sg) simp_all

text \<open>
  Claim C8, amended. After each of the four mutation signals, a series that has at
  least 2 points stores the complete recomputation from its current points (the
  \<open>2 * (count - 1)\<close> entries that the update computes from an empty buffer); a series
  that has fewer than 2 points keeps its stored control points unchanged.
\<close>
theorem signal_recomputes:
  "(2 \<le> length (m_points s) \<longrightarrow>
      (\<exists>cs. emit sg s = Some (s\<lparr>m_controlPoints := cs\<rparr>)
         \<and> length cs = 2 * (length (m_points s) - 1)
         \<and> updateControlPoints (m_points s) [] = Some cs))
   \<and> (length (m_points s) < 2 \<longrightarrow> emit sg s = Some s)"
proof (intro conjI impI)
  assume "2 \<le> length (m_points s)"
  from update_count [OF this, of "m_controlPoints s"]
  obtain cs where "updateControlPoints (m_points s) (m_controlPoints s) = Some cs"
    "length cs = 2 * (length (m_points s) - 1)"
    "\<forall>m'. updateControlPoints (m_points s) m' = Some cs"
    by (elim exE conjE)
  then show "\<exists>cs. emit sg s = Some (s\<lparr>m_controlPoints := cs\<rparr>)
         \<and> length cs = 2 * (length (m_points s) - 1)
         \<and> updateControlPoints (m_points s) [] = Some cs"
    by (simp add: emit_update)
next
  assume "length (m_points s) < 2"
  then show "emit sg s = Some s" by (simp add: emit_update updateControlPoints_def)
qed

theorem signal_recomputes_witness:
  "emit (pointAdded 1) \<lparr>m_points = [\<lparr>xp = 0, yp = 0\<rparr>, \<lparr>xp = 3, yp = 9\<rparr>], m_controlPoints = []\<rparr>
     = Some \<lparr>m_points = [\<lparr>xp = 0, yp = 0\<rparr>, \<lparr>xp = 3, yp = 9\<rparr>],
             m_controlPoints = [\<lparr>xp = 1, yp = 3\<rparr>, \<lparr>xp = 2, yp = 6\<rparr>]\<rparr>
   \<and> emit (pointRemoved 0) \<lparr>m_points = [], m_controlPoints = []\<rparr>
     = Some \<lparr>m_points = [], m_controlPoints = []\<rparr>"
  using signal_recomputes [of "\<lparr>m_points = [\<lparr>xp = 0, yp = 0\<rparr>, \<lparr>xp = 3, yp = 9\<rparr>], m_controlPoints = []\<rparr>" "pointAdded 1"]
    signal_recomputes [of "\<lparr>m_points = [], m_controlPoints = []\<rparr>" "pointRemoved 0"]
  by (auto simp: update_two_points)

text \<open>
  Claim C8 as stated fails when a mutation leaves fewer than 2 points. After the second
  point of the series \<open>(0, 0)\<close>, \<open>(3, 9)\<close> is removed, the stored sequence is still the pair
  of the series of two points, whereas the same point set with an empty buffer
  stores nothing: what is stored depends on the old buffer.
\<close>
theorem signal_recomputes_counterexample:
  "map_option m_controlPoints
     (emit (pointRemoved 1)
        \<lparr>m_points = [\<lparr>xp = 0, yp = 0\<rparr>], m_controlPoints = [\<lparr>xp = 1, yp = 3\<rparr>, \<lparr>xp = 2, yp = 6\<rparr>]\<rparr>)
     = Some [\<lparr>xp = 1, yp = 3\<rparr>, \<lparr>xp = 2, yp = 6\<rparr>]
   \<and> map_option m_controlPoints
     (emit (pointRemoved 1) \<lparr>m_points = [\<lparr>xp = 0, yp = 0\<rparr>], m_controlPoints = []\<rparr>)
     = Some []"
  by (simp add: updateControlPoints_def)


section \<open>Proofs: vertical axis\<close>

lemma label_in_between_Some:
  assumes "i < length (layout ax)"
  shows "label_in_between ax i br center item =
     Some (if intervalAxis ax \<and> i + 1 \<noteq> length (layout ax)
           then item\<lparr>ti_pos := \<lparr>xp = xp (ti_pos item),
                  yp = min (layout ax ! i) (rect_bottom (gridGeometry ax))
                       - ((min (layout ax ! i) (rect_bottom (gridGeometry ax))
                           - max (layout ax ! (i + 1)) (rect_top (gridGeometry ax))) / 2)
                       - yp center\<rparr>\<rparr>
           else item, False)"
proof (cases "intervalAxis ax \<and> i + 1 \<noteq> length (layout ax)")
  case True
  then have "i + 1 < length (layout ax)" using assms by simp
  then show ?thesis using True assms by (simp add: label_in_between_def Let_def)
next
  case False
  then show ?thesis by (auto simp: label_in_between_def Let_def)
qed

lemma shades_cond: "((i + 1) mod 2 \<noteq> 0 \<and> i > 1) \<longleftrightarrow> (even i \<and> 2 \<le> (i::nat))"
  by presburger

lemma shades_step_Some:
  assumes "i < length (layout ax)" "(length (layout ax) - 1) div 2 \<le> length shades"
  shows "shades_step ax i shades = Some (shades_result ax i shades)"
proof (cases "even i \<and> 2 \<le> i")
  case True
  then obtain k where k: "i = 2 * k" by (auto elim: evenE)
  then have "1 \<le> k" using True by simp
  then have "i div 2 - 1 < (length (layout ax) - 1) div 2" using assms(1) k by auto
  then have "i div 2 - 1 < length shades" "i - 1 < length (layout ax)"
    using assms by simp_all
  then show ?thesis
    unfolding shades_step_def shades_result_def shades_cond using True assms(1) by simp
next
  case False
  then show ?thesis
    unfolding shades_step_def shades_result_def shades_cond by (simp only: if_False)
qed

lemma tick_body_Some:
  assumes "i < length (layout ax)" "length (labelList ax) = length (layout ax)"
    "length (labelItems s) = length (layout ax)" "length (layout ax) \<le> length (gridItems s)"
    "length (layout ax) < length (arrowItems s)"
    "(length (layout ax) - 1) div 2 \<le> length (shadeItems s)"
  shows "tick_body ax av i (s, h) =
     Some (s\<lparr>gridItems := (gridItems s)[i := fst (line_results ax i (gridItems s ! i) (arrowItems s ! (i + 1)))],
             labelItems := (labelItems s)[i := fst (label_result ax av i (labelItems s ! i) h)],
             shadeItems := shades_result ax i (shadeItems s),
             arrowItems := (arrowItems s)[i + 1 := snd (line_results ax i (gridItems s ! i) (arrowItems s ! (i + 1)))]\<rparr>,
           snd (label_result ax av i (labelItems s ! i) h))"
  using assms
  by (simp add: tick_body_def label_in_between_Some shades_step_Some label_result_def line_results_def
      Let_def split_beta)

lemma heights_start: "k \<le> i \<Longrightarrow> heights ax av L i h k = h"
  by (induction k) auto

lemma heights_step:
  assumes "\<forall>j\<ge>i + 1. L1 ! j = L ! j" "h1 = snd (label_result ax av i (L ! i) h)"
  shows "i + 1 \<le> k \<Longrightarrow> heights ax av L1 (i + 1) h1 k = heights ax av L i h k"
proof (induction k)
  case 0
  then show ?case by simp
next
  case (Suc k)
  show ?case
  proof (cases "k = i")
    case True
    then show ?thesis using assms(2) by (simp add: heights_start)
  next
    case False
    then have k: "i + 1 \<le> k" using Suc.prems by simp
    then have "L1 ! k = L ! k" using assms(1) by simp
    then show ?thesis using Suc.IH [OF k] k by simp
  qed
qed

lemma shade_rect_indep: "shade_rect ax a b r = shade_rect ax a b r'"
  by (cases r, cases r') (simp add: shade_rect_def Let_def)

lemma shades_result_nth:
  assumes "k < length shades"
  shows "shades_result ax i shades ! k =
     (if i = 2 * k + 2 then shade_rect ax (layout ax ! (2 * k + 1)) (layout ax ! (2 * k + 2)) (shades ! k)
      else shades ! k)"
proof (cases "even i \<and> 2 \<le> i")
  case True
  then obtain j where j: "i = 2 * j" by (auto elim: evenE)
  then have j1: "1 \<le> j" using True by simp
  then have d: "i div 2 - 1 = j - 1" "i - 1 = 2 * (j - 1) + 1" "i = 2 * (j - 1) + 2"
    using j by simp_all
  show ?thesis
  proof (cases "j - 1 = k")
    case True
    then show ?thesis using assms d \<open>even i \<and> 2 \<le> i\<close>
      by (simp add: shades_result_def)
  next
    case False
    then have "i \<noteq> 2 * k + 2" using d j1 by linarith
    then show ?thesis using False d \<open>even i \<and> 2 \<le> i\<close>
      by (simp add: shades_result_def)
  qed
next
  case False
  then have "i \<noteq> 2 * k + 2" by auto
  then show ?thesis using False by (auto simp: shades_result_def)
qed

lemma length_shades_result [simp]: "length (shades_result ax i shades) = length shades"
  by (simp add: shades_result_def)

lemma tick_loop_inv:
  assumes "length (labelList ax) = length (layout ax)"
    "length (labelItems s) = length (layout ax)" "length (layout ax) \<le> length (gridItems s)"
    "length (layout ax) < length (arrowItems s)"
    "(length (layout ax) - 1) div 2 \<le> length (shadeItems s)" "i \<le> length (layout ax)"
  shows "\<exists>s' h'. tick_loop ax av i (s, h) = Some (s', h')
      \<and> length (labelItems s') = length (labelItems s)
      \<and> length (gridItems s') = length (gridItems s)
      \<and> length (arrowItems s') = length (arrowItems s)
      \<and> length (shadeItems s') = length (shadeItems s)
      \<and> titleItem s' = titleItem s
      \<and> (\<forall>k<i. labelItems s' ! k = labelItems s ! k)
      \<and> (\<forall>k. i \<le> k \<and> k < length (layout ax) \<longrightarrow>
            labelItems s' ! k =
              fst (label_result ax av k (labelItems s ! k) (heights ax av (labelItems s) i h k)))
      \<and> (\<forall>k<length (shadeItems s). shadeItems s' ! k =
            (if i \<le> 2 * k + 2 \<and> 2 * k + 2 < length (layout ax)
             then shade_rect ax (layout ax ! (2 * k + 1)) (layout ax ! (2 * k + 2)) (shadeItems s ! k)
             else shadeItems s ! k))"
  using assms
proof (induction "length (layout ax) - i" arbitrary: i s h)
  case 0
  then have "i = length (layout ax)" by simp
  then show ?case by (auto simp: tick_loop.simps heights_start)
next
  case (Suc d)
  then have lt: "i < length (layout ax)" by simp
  define L1 where "L1 = (labelItems s)[i := fst (label_result ax av i (labelItems s ! i) h)]"
  define h1 where "h1 = snd (label_result ax av i (labelItems s ! i) h)"
  define s1 where "s1 = s\<lparr>gridItems := (gridItems s)[i := fst (line_results ax i (gridItems s ! i) (arrowItems s ! (i + 1)))],
             labelItems := L1,
             shadeItems := shades_result ax i (shadeItems s),
             arrowItems := (arrowItems s)[i + 1 := snd (line_results ax i (gridItems s ! i) (arrowItems s ! (i + 1)))]\<rparr>"
  have body: "tick_body ax av i (s, h) = Some (s1, h1)"
    using tick_body_Some [OF lt Suc.prems(1-5)] by (simp add: s1_def L1_def h1_def)
  have step: "tick_loop ax av i (s, h) = tick_loop ax av (i + 1) (s1, h1)"
    using lt body by (subst tick_loop.simps) simp
  have sel: "labelItems s1 = L1" "shadeItems s1 = shades_result ax i (shadeItems s)"
    "length (gridItems s1) = length (gridItems s)" "length (arrowItems s1) = length (arrowItems s)"
    "titleItem s1 = titleItem s"
    by (simp_all add: s1_def)
  have pre: "length (labelItems s1) = length (layout ax)" "length (layout ax) \<le> length (gridItems s1)"
    "length (layout ax) < length (arrowItems s1)"
    "(length (layout ax) - 1) div 2 \<le> length (shadeItems s1)" "i + 1 \<le> length (layout ax)"
    using Suc.prems lt by (simp_all add: sel L1_def)
  have d: "d = length (layout ax) - (i + 1)" using Suc.hyps(2) by simp
  from Suc.hyps(1) [OF d Suc.prems(1) pre, of h1]
  obtain s' h' where R: "tick_loop ax av (i + 1) (s1, h1) = Some (s', h')"
    and Ll: "length (labelItems s') = length (labelItems s1)"
    and Lg: "length (gridItems s') = length (gridItems s1)"
    and La: "length (arrowItems s') = length (arrowItems s1)"
    and Ls: "length (shadeItems s') = length (shadeItems s1)"
    and T: "titleItem s' = titleItem s1"
    and F: "\<forall>k<i + 1. labelItems s' ! k = labelItems s1 ! k"
    and P: "\<forall>k. i + 1 \<le> k \<and> k < length (layout ax) \<longrightarrow>
            labelItems s' ! k =
              fst (label_result ax av k (labelItems s1 ! k) (heights ax av (labelItems s1) (i + 1) h1 k))"
    and S: "\<forall>k<length (shadeItems s1). shadeItems s' ! k =
            (if i + 1 \<le> 2 * k + 2 \<and> 2 * k + 2 < length (layout ax)
             then shade_rect ax (layout ax ! (2 * k + 1)) (layout ax ! (2 * k + 2)) (shadeItems s1 ! k)
             else shadeItems s1 ! k)"
    by (elim exE conjE)
  have F': "\<forall>k<i. labelItems s' ! k = labelItems s ! k"
    using F by (simp add: sel L1_def)
  have same: "\<forall>j\<ge>i + 1. L1 ! j = labelItems s ! j" by (simp add: L1_def)
  have P': "\<forall>k. i \<le> k \<and> k < length (layout ax) \<longrightarrow>
            labelItems s' ! k =
              fst (label_result ax av k (labelItems s ! k) (heights ax av (labelItems s) i h k))"
  proof (intro allI impI)
    fix k assume k: "i \<le> k \<and> k < length (layout ax)"
    show "labelItems s' ! k =
              fst (label_result ax av k (labelItems s ! k) (heights ax av (labelItems s) i h k))"
    proof (cases "k = i")
      case True
      have "labelItems s' ! i = L1 ! i" using F by (simp add: sel)
      then show ?thesis using True lt Suc.prems(2) by (simp add: L1_def heights_start)
    next
      case False
      then have k1: "i + 1 \<le> k" using k by simp
      have "heights ax av L1 (i + 1) h1 k = heights ax av (labelItems s) i h k"
        using heights_step [OF same h1_def k1] .
      moreover have "L1 ! k = labelItems s ! k" using same k1 by simp
      ultimately show ?thesis using P k k1 by (simp add: sel)
    qed
  qed
  have S': "\<forall>k<length (shadeItems s). shadeItems s' ! k =
            (if i \<le> 2 * k + 2 \<and> 2 * k + 2 < length (layout ax)
             then shade_rect ax (layout ax ! (2 * k + 1)) (layout ax ! (2 * k + 2)) (shadeItems s ! k)
             else shadeItems s ! k)"
  proof (intro allI impI)
    fix k assume k: "k < length (shadeItems s)"
    have a: "shadeItems s' ! k =
            (if i + 1 \<le> 2 * k + 2 \<and> 2 * k + 2 < length (layout ax)
             then shade_rect ax (layout ax ! (2 * k + 1)) (layout ax ! (2 * k + 2)) (shadeItems s1 ! k)
             else shadeItems s1 ! k)"
      using S k by (simp add: sel)
    have b: "shadeItems s1 ! k =
         (if i = 2 * k + 2 then shade_rect ax (layout ax ! (2 * k + 1)) (layout ax ! (2 * k + 2)) (shadeItems s ! k)
          else shadeItems s ! k)"
      using shades_result_nth [OF k] by (simp add: sel)
    show "shadeItems s' ! k =
            (if i \<le> 2 * k + 2 \<and> 2 * k + 2 < length (layout ax)
             then shade_rect ax (layout ax ! (2 * k + 1)) (layout ax ! (2 * k + 2)) (shadeItems s ! k)
             else shadeItems s ! k)"
    proof (cases "i = 2 * k + 2")
      case True
      then show ?thesis using a b lt by simp
    next
      case False
      then have "(i + 1 \<le> 2 * k + 2) = (i \<le> 2 * k + 2)" by linarith
      then show ?thesis using a b False
        by (simp add: shade_rect_indep [of ax _ _ "shadeItems s1 ! k" "shadeItems s ! k"])
    qed
  qed
  show ?case
    unfolding step using R Ll Lg La Ls T F' P' S'
    by (intro exI [of _ s'] exI [of _ h'] conjI) (simp_all add: sel L1_def)
qed

lemma interval_grid_lines_Some:
  assumes "grid_items_needed ax \<le> length (gridItems s)"
  shows "\<exists>g. interval_grid_lines ax s = Some (s\<lparr>gridItems := g\<rparr>)"
proof (cases "intervalAxis ax")
  case True
  then have "length (layout ax) < length (gridItems s)" "length (layout ax) + 1 < length (gridItems s)"
    using assms by (simp_all add: grid_items_needed_def)
  then show ?thesis using True
    by (simp add: interval_grid_lines_def Let_def) (rule exI, rule refl)
next
  case False
  have "s = s\<lparr>gridItems := gridItems s\<rparr>" by simp
  then show ?thesis using False by (metis interval_grid_lines_def)
qed

lemma updateGeometry_inv:
  assumes "layout ax \<noteq> []" "well_sized ax s"
  shows "\<exists>s'. updateGeometry ax s = Some s'
      \<and> length (labelItems s') = length (labelItems s)
      \<and> length (shadeItems s') = length (shadeItems s)
      \<and> (\<forall>k<length (layout ax). labelItems s' ! k =
            fst (label_result ax (available_space ax s) k (labelItems s ! k)
                  (heights ax (available_space ax s) (labelItems s) 0 (rect_bottom (axisGeometry ax)) k)))
      \<and> (\<forall>k<length (shadeItems s). shadeItems s' ! k =
            (if 2 * k + 2 < length (layout ax)
             then shade_rect ax (layout ax ! (2 * k + 1)) (layout ax ! (2 * k + 2)) (shadeItems s ! k)
             else shadeItems s ! k))"
proof -
  have ws: "length (labelList ax) = length (layout ax)" "length (labelItems s) = length (layout ax)"
    "grid_items_needed ax \<le> length (gridItems s)" "length (layout ax) < length (arrowItems s)"
    "(length (layout ax) - 1) div 2 \<le> length (shadeItems s)"
    using assms(2) by (simp_all add: well_sized_def)
  define av where "av = available_space ax s"
  define s0 where "s0 = s\<lparr>arrowItems := (arrowItems s)[0 := arrow_position ax (arrowItems s ! 0)],
                         titleItem := fst (title_geometry ax (titleItem s))\<rparr>"
  have sel0: "labelItems s0 = labelItems s" "shadeItems s0 = shadeItems s"
    "gridItems s0 = gridItems s" "length (arrowItems s0) = length (arrowItems s)"
    by (simp_all add: s0_def)
  have g: "length (layout ax) \<le> length (gridItems s)"
    using ws(3) by (simp add: grid_items_needed_def split: if_splits)
  have pre: "length (labelItems s0) = length (layout ax)" "length (layout ax) \<le> length (gridItems s0)"
    "length (layout ax) < length (arrowItems s0)"
    "(length (layout ax) - 1) div 2 \<le> length (shadeItems s0)" "0 \<le> length (layout ax)"
    using ws g by (simp_all add: sel0)
  from tick_loop_inv [OF ws(1) pre, of av "rect_bottom (axisGeometry ax)"]
  obtain s1 h1 where R: "tick_loop ax av 0 (s0, rect_bottom (axisGeometry ax)) = Some (s1, h1)"
    and Ll: "length (labelItems s1) = length (labelItems s0)"
    and Lg: "length (gridItems s1) = length (gridItems s0)"
    and La: "length (arrowItems s1) = length (arrowItems s0)"
    and Ls: "length (shadeItems s1) = length (shadeItems s0)"
    and T: "titleItem s1 = titleItem s0"
    and F: "\<forall>k<0. labelItems s1 ! k = labelItems s0 ! k"
    and P: "\<forall>k. 0 \<le> k \<and> k < length (layout ax) \<longrightarrow>
            labelItems s1 ! k =
              fst (label_result ax av k (labelItems s0 ! k)
                (heights ax av (labelItems s0) 0 (rect_bottom (axisGeometry ax)) k))"
    and S: "\<forall>k<length (shadeItems s0). shadeItems s1 ! k =
            (if 0 \<le> 2 * k + 2 \<and> 2 * k + 2 < length (layout ax)
             then shade_rect ax (layout ax ! (2 * k + 1)) (layout ax ! (2 * k + 2)) (shadeItems s0 ! k)
             else shadeItems s0 ! k)"
    by (elim exE conjE)
  have "grid_items_needed ax \<le> length (gridItems s1)" using ws(3) Lg by (simp add: sel0)
  from interval_grid_lines_Some [OF this]
  obtain g' where I: "interval_grid_lines ax s1 = Some (s1\<lparr>gridItems := g'\<rparr>)" by blast
  have a0: "0 < length (arrowItems s)" using ws(4) by auto
  have run: "updateGeometry ax s = Some (s1\<lparr>gridItems := g'\<rparr>)"
    using assms(1) ws(1,2) a0 R I
    by (simp add: updateGeometry_def Let_def split_beta s0_def av_def available_space_def)
  show ?thesis
    unfolding run av_def [symmetric] using Ll Ls P S
    by (intro exI [of _ "s1\<lparr>gridItems := g'\<rparr>"] conjI) (simp_all add: sel0)
qed

lemma label_overlap_facts:
  "ti_pos (fst (label_overlap ax br hdiff False item h)) = ti_pos item
   \<and> snd (label_overlap ax br hdiff False item h) =
       (if ti_visible (fst (label_overlap ax br hdiff False item h)) then yp (ti_pos item) else h)
   \<and> (ti_visible (fst (label_overlap ax br hdiff False item h)) \<longleftrightarrow>
        intervalAxis ax \<or> \<not> hidden_by_overlap ax (yp (ti_pos item)) (rect_height br) hdiff h)"
  by (simp add: label_overlap_def hidden_by_overlap_def)

lemma label_result_facts:
  "snd (label_result ax (available_space ax s) i (labelItems s ! i) h) =
       (if ti_visible (fst (label_result ax (available_space ax s) i (labelItems s ! i) h))
        then yp (ti_pos (fst (label_result ax (available_space ax s) i (labelItems s ! i) h))) else h)
   \<and> (ti_visible (fst (label_result ax (available_space ax s) i (labelItems s ! i) h)) \<longleftrightarrow>
        intervalAxis ax \<or>
        \<not> hidden_by_overlap ax (yp (ti_pos (fst (label_result ax (available_space ax s) i (labelItems s ! i) h))))
            (rect_height (label_bounding_rect ax s i))
            (rect_height (label_item_rect ax s i) - rect_height (label_bounding_rect ax s i)) h)"
  unfolding label_result_def Let_def label_bounding_rect_def label_item_rect_def
  using label_overlap_facts by simp

lemma label_result_interval:
  assumes "intervalAxis ax" "i + 1 \<noteq> length (layout ax)"
  shows "yp (ti_pos (fst (label_result ax (available_space ax s) i (labelItems s ! i) h))) =
      (min (layout ax ! i) (rect_bottom (gridGeometry ax))
        + max (layout ax ! (i + 1)) (rect_top (gridGeometry ax))) / 2
      - yp (rect_center (label_item_rect ax s i))"
  unfolding label_result_def Let_def label_item_rect_def
  using assms label_overlap_facts by (simp add: field_simps)

lemma list_update_Cons_numeral [simp]:
  "(x # xs)[numeral v := y] = x # xs[numeral v - 1 := y]"
  by (simp add: numeral_eq_Suc)

lemmas eval_axis = updateGeometry_def tick_loop.simps tick_body_def interval_grid_lines_def
  title_geometry_def arrow_position_def grid_line_def label_text_def label_position_def
  tick_position_def label_in_between_def label_overlap_def shade_rect_def shades_step_def
  line_visibility_def example_axis_def example_items2_def example_items4_def
  new_line_def new_text_def new_rect_def
  rect_left_def rect_right_def rect_top_def rect_bottom_def rect_width_def rect_height_def
  rect_center_def null_rect_def get_def put_def Let_def

lemma ex_interval:
  "map_option labelItems (updateGeometry (example_axis [120, 95] [''1'', ''2''] True) example_items2) =
     Some [\<lparr>ti_html = ''1'', ti_pos = \<lparr>xp = 25, yp = 185 / 2\<rparr>, ti_origin = \<lparr>xp = 10, yp = 5\<rparr>,
             ti_rotation = 0, ti_visible = True\<rparr>,
           \<lparr>ti_html = ''2'', ti_pos = \<lparr>xp = 25, yp = 90\<rparr>, ti_origin = \<lparr>xp = 10, yp = 5\<rparr>,
             ti_rotation = 0, ti_visible = True\<rparr>]"
  by (simp add: eval_axis)

lemma ex_plain:
  "map_option labelItems (updateGeometry (example_axis [80, 20] [''1'', ''2''] False) example_items2) =
     Some [\<lparr>ti_html = ''1'', ti_pos = \<lparr>xp = 25, yp = 75\<rparr>, ti_origin = \<lparr>xp = 10, yp = 5\<rparr>,
             ti_rotation = 0, ti_visible = True\<rparr>,
           \<lparr>ti_html = ''2'', ti_pos = \<lparr>xp = 25, yp = 15\<rparr>, ti_origin = \<lparr>xp = 10, yp = 5\<rparr>,
             ti_rotation = 0, ti_visible = True\<rparr>]"
  by (simp add: eval_axis)

lemma ex_shades:
  "map_option shadeItems
     (updateGeometry (example_axis [10, 20, 30, 40] [''1'', ''2'', ''3'', ''4''] False) example_items4) =
     Some [\<lparr>ri_rect = \<lparr>r_x = 50, r_y = 30, r_w = 200, r_h = - 10\<rparr>, ri_visible = False\<rparr>]"
  by (simp add: eval_axis)

lemma well_sized_example2 [simp]: "well_sized (example_axis [a, b] [u, v] interval) example_items2"
  by (simp add: well_sized_def grid_items_needed_def example_axis_def example_items2_def)

lemma well_sized_example4 [simp]:
  "well_sized (example_axis [a, b, c, d] [u, v, w, x] False) example_items4"
  by (simp add: well_sized_def grid_items_needed_def example_axis_def example_items4_def)

text \<open>
  Claim C9. If the tick layout is empty, \<open>updateGeometry\<close> returns at once and leaves
  every item as it was: no geometry, text or visibility is changed.
\<close>
theorem empty_layout_noop:
  assumes "layout ax = []"
  shows "updateGeometry ax s = Some s"
  using assms by (simp add: updateGeometry_def)

theorem empty_layout_noop_witness:
  "layout (example_axis [] [] True) = []
   \<and> updateGeometry (example_axis [] [] True) example_items2 = Some example_items2"
  using empty_layout_noop [of "example_axis [] [] True" example_items2]
  by (simp add: example_axis_def)

text \<open>
  What the code does in interval mode, whatever the input: for every tick \<open>i\<close> that is not
  the last one the label's vertical position is set to the midpoint of
  \<open>min (tick i) (grid bottom)\<close> and \<open>max (tick (i + 1)) (grid top)\<close>, less the vertical centre of
  the label's own rectangle, and every label is made visible. The branch that sets
  \<^verbatim>\<open>forceHide\<close> (line 144) is never taken: its condition has the conjunct
  \<^verbatim>\<open>!intervalAxis()\<close> (line 143) inside a block entered only when \<^verbatim>\<open>intervalAxis()\<close> holds.
\<close>
lemma interval_labels_shown:
  assumes "intervalAxis ax" "layout ax \<noteq> []" "well_sized ax s"
  shows "\<exists>s'. updateGeometry ax s = Some s'
      \<and> (\<forall>i. i + 1 < length (layout ax) \<longrightarrow>
            yp (ti_pos (labelItems s' ! i)) =
              (min (layout ax ! i) (rect_bottom (gridGeometry ax))
                + max (layout ax ! (i + 1)) (rect_top (gridGeometry ax))) / 2
              - yp (rect_center (label_item_rect ax s i)))
      \<and> (\<forall>i<length (layout ax). ti_visible (labelItems s' ! i))"
proof -
  from updateGeometry_inv [OF assms(2,3)]
  obtain s' where run: "updateGeometry ax s = Some s'"
    and P: "\<forall>k<length (layout ax). labelItems s' ! k =
            fst (label_result ax (available_space ax s) k (labelItems s ! k)
                  (heights ax (available_space ax s) (labelItems s) 0 (rect_bottom (axisGeometry ax)) k))"
    by (elim exE conjE)
  have a: "\<forall>i. i + 1 < length (layout ax) \<longrightarrow>
            yp (ti_pos (labelItems s' ! i)) =
              (min (layout ax ! i) (rect_bottom (gridGeometry ax))
                + max (layout ax ! (i + 1)) (rect_top (gridGeometry ax))) / 2
              - yp (rect_center (label_item_rect ax s i))"
  proof (intro allI impI)
    fix i assume i: "i + 1 < length (layout ax)"
    then have "i < length (layout ax)" "i + 1 \<noteq> length (layout ax)" by simp_all
    then show "yp (ti_pos (labelItems s' ! i)) =
              (min (layout ax ! i) (rect_bottom (gridGeometry ax))
                + max (layout ax ! (i + 1)) (rect_top (gridGeometry ax))) / 2
              - yp (rect_center (label_item_rect ax s i))"
      using P label_result_interval [OF assms(1), of i s] by simp
  qed
  have b: "\<forall>i<length (layout ax). ti_visible (labelItems s' ! i)"
    using P label_result_facts [of ax s] assms(1) by simp
  show ?thesis using run a b by (intro exI [of _ s'] conjI)
qed

text \<open>
  Claim C5. In interval mode, for a tick that is not the last one, the label is moved to
  the midpoint of the clamped span, and it is force-hidden instead when that span is
  narrower than the height of the label's bounding box and a clamped end lies on a grid
  boundary; the comment of line 140 says the same (\<^verbatim>\<open>Hide label in case visible part of
  the category at the grid edge is too narrow\<close>). The code does the first and not the
  second. With the ticks at 120 and 95 and the grid from 0 to 100, the lower end of the
  first span is clamped onto the grid bottom and the span, 5, is narrower than the
  height of the label's bounding box, 10: the label should be hidden, yet
  \<open>updateGeometry\<close> moves it to the midpoint, \<open>97.5 - 5\<close>, and makes it visible.
\<close>
theorem interval_label_not_hidden:
  "min (120::real) (rect_bottom (gridGeometry (example_axis [120, 95] [''1'', ''2''] True)))
     = rect_bottom (gridGeometry (example_axis [120, 95] [''1'', ''2''] True))
   \<and> min (120::real) (rect_bottom (gridGeometry (example_axis [120, 95] [''1'', ''2''] True)))
      - max 95 (rect_top (gridGeometry (example_axis [120, 95] [''1'', ''2''] True)))
     < rect_height (label_bounding_rect (example_axis [120, 95] [''1'', ''2''] True) example_items2 0)
   \<and> map_option labelItems (updateGeometry (example_axis [120, 95] [''1'', ''2''] True) example_items2) =
     Some [\<lparr>ti_html = ''1'', ti_pos = \<lparr>xp = 25, yp = 185 / 2\<rparr>, ti_origin = \<lparr>xp = 10, yp = 5\<rparr>,
             ti_rotation = 0, ti_visible = True\<rparr>,
           \<lparr>ti_html = ''2'', ti_pos = \<lparr>xp = 25, yp = 90\<rparr>, ti_origin = \<lparr>xp = 10, yp = 5\<rparr>,
             ti_rotation = 0, ti_visible = True\<rparr>]"
  by (simp add: ex_interval)
    (simp add: example_axis_def example_items2_def new_text_def label_bounding_rect_def label_text_def
      available_space_def title_geometry_def rect_bottom_def rect_top_def rect_height_def Let_def)

lemma heights_threshold:
  assumes "\<not> intervalAxis ax"
    and "\<forall>k<n. L' ! k =
            fst (label_result ax (available_space ax s) k (labelItems s ! k)
                  (heights ax (available_space ax s) (labelItems s) 0 (rect_bottom (axisGeometry ax)) k))"
  shows "k \<le> n \<Longrightarrow>
     heights ax (available_space ax s) (labelItems s) 0 (rect_bottom (axisGeometry ax)) k = threshold ax L' k"
proof (induction k)
  case 0
  then show ?case by simp
next
  case (Suc k)
  then have k: "k < n" and ih: "heights ax (available_space ax s) (labelItems s) 0
      (rect_bottom (axisGeometry ax)) k = threshold ax L' k" by simp_all
  have "L' ! k = fst (label_result ax (available_space ax s) k (labelItems s ! k)
                  (threshold ax L' k))"
    using assms(2) k ih by simp
  then show ?case
    using label_result_facts [of ax s k "threshold ax L' k"] ih by simp
qed

lemma threshold_last_visible:
  assumes "ti_visible (L ! i)"
  shows "i < j \<Longrightarrow> (\<forall>k. i < k \<and> k < j \<longrightarrow> \<not> ti_visible (L ! k)) \<Longrightarrow>
     threshold ax L j = yp (ti_pos (L ! i))"
proof (induction j)
  case 0
  then show ?case by simp
next
  case (Suc j)
  show ?case
  proof (cases "i = j")
    case True
    then show ?thesis using assms by simp
  next
    case False
    then have "i < j" using Suc.prems by simp
    moreover have "\<forall>k. i < k \<and> k < j \<longrightarrow> \<not> ti_visible (L ! k)" using Suc.prems by simp
    moreover have "\<not> ti_visible (L ! j)" using Suc.prems \<open>i < j\<close> by simp
    ultimately show ?thesis using Suc.IH by simp
  qed
qed

text \<open>
  Claim C6, amended. Outside interval mode the loop keeps a running threshold, the
  bottom of the axis rectangle at first and then the top of each visible label, and a
  label is hidden whenever its bottom edge would cross that threshold, whenever it was
  force-hidden, and whenever it lies more than one pixel outside the vertical extent of
  the axis rectangle. Consequently no two visible labels overlap: for adjacent visible
  labels \<open>i < j\<close>, the bottom of \<open>label j\<close> is at most the top of \<open>label i\<close>, within the
  tolerance of one pixel. (Only the two labels of the inequality are exchanged against
  the claim as it was stated.)
\<close>
theorem label_overlap_suppression:
  assumes "\<not> intervalAxis ax" "layout ax \<noteq> []" "well_sized ax s"
  shows "\<exists>s'. updateGeometry ax s = Some s'
      \<and> (\<forall>i<length (layout ax).
            hidden_by_overlap ax (yp (ti_pos (labelItems s' ! i)))
                  (rect_height (label_bounding_rect ax s i))
                  (rect_height (label_item_rect ax s i) - rect_height (label_bounding_rect ax s i))
                  (threshold ax (labelItems s') i)
            \<longrightarrow> \<not> ti_visible (labelItems s' ! i))
      \<and> (\<forall>rect heightDiff labelItem height.
            \<not> ti_visible (fst (label_overlap ax rect heightDiff True labelItem height)))
      \<and> (\<forall>i j. i < j \<and> j < length (layout ax)
              \<and> ti_visible (labelItems s' ! i) \<and> ti_visible (labelItems s' ! j)
              \<and> (\<forall>k. i < k \<and> k < j \<longrightarrow> \<not> ti_visible (labelItems s' ! k)) \<longrightarrow>
            yp (ti_pos (labelItems s' ! j)) + rect_height (label_bounding_rect ax s j)
              \<le> yp (ti_pos (labelItems s' ! i)) + 1)"
proof -
  from updateGeometry_inv [OF assms(2,3)]
  obtain s' where run: "updateGeometry ax s = Some s'"
    and P: "\<forall>k<length (layout ax). labelItems s' ! k =
            fst (label_result ax (available_space ax s) k (labelItems s ! k)
                  (heights ax (available_space ax s) (labelItems s) 0 (rect_bottom (axisGeometry ax)) k))"
    by (elim exE conjE)
  have H: "heights ax (available_space ax s) (labelItems s) 0 (rect_bottom (axisGeometry ax)) k
      = threshold ax (labelItems s') k" if "k \<le> length (layout ax)" for k
    using heights_threshold [OF assms(1) P that] .
  have a: "\<forall>i<length (layout ax).
            ti_visible (labelItems s' ! i) \<longleftrightarrow>
              \<not> hidden_by_overlap ax (yp (ti_pos (labelItems s' ! i)))
                  (rect_height (label_bounding_rect ax s i))
                  (rect_height (label_item_rect ax s i) - rect_height (label_bounding_rect ax s i))
                  (threshold ax (labelItems s') i)"
  proof (intro allI impI)
    fix i assume i: "i < length (layout ax)"
    then have "labelItems s' ! i = fst (label_result ax (available_space ax s) i (labelItems s ! i)
                  (threshold ax (labelItems s') i))"
      using P H [of i] by simp
    then show "ti_visible (labelItems s' ! i) \<longleftrightarrow>
              \<not> hidden_by_overlap ax (yp (ti_pos (labelItems s' ! i)))
                  (rect_height (label_bounding_rect ax s i))
                  (rect_height (label_item_rect ax s i) - rect_height (label_bounding_rect ax s i))
                  (threshold ax (labelItems s') i)"
      using label_result_facts [of ax s i "threshold ax (labelItems s') i"] assms(1) by simp
  qed
  have b: "\<forall>i j. i < j \<and> j < length (layout ax)
              \<and> ti_visible (labelItems s' ! i) \<and> ti_visible (labelItems s' ! j)
              \<and> (\<forall>k. i < k \<and> k < j \<longrightarrow> \<not> ti_visible (labelItems s' ! k)) \<longrightarrow>
            yp (ti_pos (labelItems s' ! j)) + rect_height (label_bounding_rect ax s j)
              \<le> yp (ti_pos (labelItems s' ! i))"
  proof (intro allI impI)
    fix i j
    assume h: "i < j \<and> j < length (layout ax)
              \<and> ti_visible (labelItems s' ! i) \<and> ti_visible (labelItems s' ! j)
              \<and> (\<forall>k. i < k \<and> k < j \<longrightarrow> \<not> ti_visible (labelItems s' ! k))"
    then have "threshold ax (labelItems s') j = yp (ti_pos (labelItems s' ! i))"
      using threshold_last_visible [of "labelItems s'" i j ax] by blast
    moreover have "\<not> hidden_by_overlap ax (yp (ti_pos (labelItems s' ! j)))
                  (rect_height (label_bounding_rect ax s j))
                  (rect_height (label_item_rect ax s j) - rect_height (label_bounding_rect ax s j))
                  (threshold ax (labelItems s') j)"
      using a h by blast
    ultimately show "yp (ti_pos (labelItems s' ! j)) + rect_height (label_bounding_rect ax s j)
              \<le> yp (ti_pos (labelItems s' ! i))"
      by (simp add: hidden_by_overlap_def)
  qed
  have a': "\<forall>i<length (layout ax).
            hidden_by_overlap ax (yp (ti_pos (labelItems s' ! i)))
                  (rect_height (label_bounding_rect ax s i))
                  (rect_height (label_item_rect ax s i) - rect_height (label_bounding_rect ax s i))
                  (threshold ax (labelItems s') i)
            \<longrightarrow> \<not> ti_visible (labelItems s' ! i)"
    using a by blast
  have f: "\<forall>rect heightDiff labelItem height.
            \<not> ti_visible (fst (label_overlap ax rect heightDiff True labelItem height))"
    using assms(1) by (simp add: label_overlap_def)
  have b': "\<forall>i j. i < j \<and> j < length (layout ax)
              \<and> ti_visible (labelItems s' ! i) \<and> ti_visible (labelItems s' ! j)
              \<and> (\<forall>k. i < k \<and> k < j \<longrightarrow> \<not> ti_visible (labelItems s' ! k)) \<longrightarrow>
            yp (ti_pos (labelItems s' ! j)) + rect_height (label_bounding_rect ax s j)
              \<le> yp (ti_pos (labelItems s' ! i)) + 1"
  proof (intro allI impI)
    fix i j
    assume h: "i < j \<and> j < length (layout ax)
              \<and> ti_visible (labelItems s' ! i) \<and> ti_visible (labelItems s' ! j)
              \<and> (\<forall>k. i < k \<and> k < j \<longrightarrow> \<not> ti_visible (labelItems s' ! k))"
    then have "yp (ti_pos (labelItems s' ! j)) + rect_height (label_bounding_rect ax s j)
              \<le> yp (ti_pos (labelItems s' ! i))"
      using b by blast
    then show "yp (ti_pos (labelItems s' ! j)) + rect_height (label_bounding_rect ax s j)
              \<le> yp (ti_pos (labelItems s' ! i)) + 1"
      by simp
  qed
  show ?thesis using run a' f b' by (intro exI [of _ s'] conjI)
qed

theorem label_overlap_suppression_witness:
  "\<not> intervalAxis (example_axis [80, 20] [''1'', ''2''] False)
   \<and> layout (example_axis [80, 20] [''1'', ''2''] False) \<noteq> []
   \<and> well_sized (example_axis [80, 20] [''1'', ''2''] False) example_items2
   \<and> (\<exists>s'. updateGeometry (example_axis [80, 20] [''1'', ''2''] False) example_items2 = Some s'
         \<and> ti_visible (labelItems s' ! 0) \<and> ti_visible (labelItems s' ! 1)
         \<and> yp (ti_pos (labelItems s' ! 1)) + 10 \<le> yp (ti_pos (labelItems s' ! 0)) + 1)"
proof -
  have h: "\<not> intervalAxis (example_axis [80, 20] [''1'', ''2''] False)"
    "layout (example_axis [80, 20] [''1'', ''2''] False) \<noteq> []"
    "well_sized (example_axis [80, 20] [''1'', ''2''] False) example_items2"
    by (simp_all add: example_axis_def well_sized_def grid_items_needed_def example_items2_def)
  from label_overlap_suppression [OF h]
  obtain s' where s': "updateGeometry (example_axis [80, 20] [''1'', ''2''] False) example_items2 = Some s'"
    by blast
  then have "labelItems s' =
     [\<lparr>ti_html = ''1'', ti_pos = \<lparr>xp = 25, yp = 75\<rparr>, ti_origin = \<lparr>xp = 10, yp = 5\<rparr>,
             ti_rotation = 0, ti_visible = True\<rparr>,
           \<lparr>ti_html = ''2'', ti_pos = \<lparr>xp = 25, yp = 15\<rparr>, ti_origin = \<lparr>xp = 10, yp = 5\<rparr>,
             ti_rotation = 0, ti_visible = True\<rparr>]"
    using ex_plain by simp
  then show ?thesis using h s' by simp
qed

text \<open>
  Claim C6 as stated fails in the direction of its inequality. With the ticks at 80 and
  20 both labels are visible, at the tops 75 and 15, with the height 10 each; the bottom of
  \<open>label 0\<close> is 85, which is not at most the top of \<open>label 1\<close> plus one pixel.
\<close>
theorem label_overlap_counterexample:
  "map_option labelItems (updateGeometry (example_axis [80, 20] [''1'', ''2''] False) example_items2) =
     Some [\<lparr>ti_html = ''1'', ti_pos = \<lparr>xp = 25, yp = 75\<rparr>, ti_origin = \<lparr>xp = 10, yp = 5\<rparr>,
             ti_rotation = 0, ti_visible = True\<rparr>,
           \<lparr>ti_html = ''2'', ti_pos = \<lparr>xp = 25, yp = 15\<rparr>, ti_origin = \<lparr>xp = 10, yp = 5\<rparr>,
             ti_rotation = 0, ti_visible = True\<rparr>]
   \<and> rect_height (label_bounding_rect (example_axis [80, 20] [''1'', ''2''] False) example_items2 0) = 10
   \<and> \<not> ((75::real) + 10 \<le> 15 + 1)"
  by (simp add: ex_plain)
    (simp add: example_axis_def example_items2_def new_text_def label_bounding_rect_def label_text_def
      available_space_def title_geometry_def rect_height_def Let_def)

lemma shade_rect_eq:
  "ri_rect (shade_rect ax (layout ax ! (2 * k + 1)) (layout ax ! (2 * k + 2)) r) = band_rect ax k
   \<and> (ri_visible (shade_rect ax (layout ax ! (2 * k + 1)) (layout ax ! (2 * k + 2)) r)
        \<longleftrightarrow> 0 < rect_height (band_rect ax k))"
proof -
  define H where "H = rect_height (band_rect ax k)"
  define R where "R = r\<lparr>ri_rect := band_rect ax k\<rparr>"
  have "shade_rect ax (layout ax ! (2 * k + 1)) (layout ax ! (2 * k + 2)) r =
      (if H \<le> 0 then R\<lparr>ri_visible := False\<rparr> else R\<lparr>ri_visible := True\<rparr>)"
    unfolding H_def R_def shade_rect_def band_rect_def rect_height_def Let_def by simp
  moreover have "ri_rect R = band_rect ax k" by (simp add: R_def)
  ultimately show ?thesis unfolding H_def [symmetric] by (cases "H \<le> 0") simp_all
qed

lemma filter_take_all:
  assumes "m \<le> length xs" "\<forall>k<m. P (xs ! k)"
  shows "length (filter P (take m xs)) = m"
proof -
  have "\<forall>x\<in>set (take m xs). P x"
    using assms by (auto simp: in_set_conv_nth)
  then have "filter P (take m xs) = take m xs" by (simp add: filter_id_conv)
  then show ?thesis using assms(1) by simp
qed

lemma filter_take_none:
  assumes "m \<le> length xs" "\<forall>k<m. \<not> P (xs ! k)"
  shows "length (filter P (take m xs)) = 0"
proof -
  have "\<forall>x\<in>set (take m xs). \<not> P x"
    using assms by (auto simp: in_set_conv_nth)
  then show ?thesis by (simp add: filter_empty_conv)
qed

text \<open>
  Claim C7, amended. The band \<open>k\<close> (tick \<open>2 * k + 2\<close>) gets the rectangle of the full grid
  width between the previous and the current tick, clamped to the grid, and is visible
  if and only if the height of that rectangle is strictly positive; the other shade items
  are left alone. When the tick positions decrease strictly (as the pixel positions
  of a vertical axis do) and lie within the vertical bounds of the grid, exactly
  \<open>(n - 1) div 2\<close> bands are visible, \<open>n\<close> being the number of ticks; when the tick
  positions increase, none is.
\<close>
theorem shading_bands:
  assumes "layout ax \<noteq> []" "well_sized ax s"
  shows "\<exists>s'. updateGeometry ax s = Some s'
      \<and> (\<forall>k<(length (layout ax) - 1) div 2.
            ri_rect (shadeItems s' ! k) = band_rect ax k
            \<and> (ri_visible (shadeItems s' ! k) \<longleftrightarrow> 0 < rect_height (band_rect ax k)))
      \<and> (\<forall>k. (length (layout ax) - 1) div 2 \<le> k \<and> k < length (shadeItems s) \<longrightarrow>
            shadeItems s' ! k = shadeItems s ! k)
      \<and> ((\<forall>i<length (layout ax). rect_top (gridGeometry ax) \<le> layout ax ! i
                \<and> layout ax ! i \<le> rect_bottom (gridGeometry ax))
          \<and> (\<forall>i. i + 1 < length (layout ax) \<longrightarrow> layout ax ! (i + 1) < layout ax ! i) \<longrightarrow>
          visible_bands s' ((length (layout ax) - 1) div 2) = (length (layout ax) - 1) div 2)
      \<and> ((\<forall>i. i + 1 < length (layout ax) \<longrightarrow> layout ax ! i \<le> layout ax ! (i + 1)) \<longrightarrow>
          visible_bands s' ((length (layout ax) - 1) div 2) = 0)"
proof -
  define n where "n = length (layout ax)"
  define m where "m = (n - 1) div 2"
  have n1: "1 \<le> n" using assms(1) by (simp add: n_def Suc_le_eq)
  have ms: "m \<le> length (shadeItems s)" using assms(2) by (simp add: well_sized_def m_def n_def)
  have km: "k < m \<longleftrightarrow> 2 * k + 2 < n" for k using n1 unfolding m_def by linarith
  from updateGeometry_inv [OF assms, folded n_def]
  obtain s' where run: "updateGeometry ax s = Some s'"
    and Ls: "length (shadeItems s') = length (shadeItems s)"
    and S: "\<forall>k<length (shadeItems s). shadeItems s' ! k =
            (if 2 * k + 2 < n
             then shade_rect ax (layout ax ! (2 * k + 1)) (layout ax ! (2 * k + 2)) (shadeItems s ! k)
             else shadeItems s ! k)"
    by (elim exE conjE)
  have a: "\<forall>k<m. ri_rect (shadeItems s' ! k) = band_rect ax k
            \<and> (ri_visible (shadeItems s' ! k) \<longleftrightarrow> 0 < rect_height (band_rect ax k))"
  proof (intro allI impI)
    fix k assume k: "k < m"
    then have "shadeItems s' ! k =
        shade_rect ax (layout ax ! (2 * k + 1)) (layout ax ! (2 * k + 2)) (shadeItems s ! k)"
      using S ms km [of k] by simp
    then show "ri_rect (shadeItems s' ! k) = band_rect ax k
            \<and> (ri_visible (shadeItems s' ! k) \<longleftrightarrow> 0 < rect_height (band_rect ax k))"
      using shade_rect_eq [of ax k "shadeItems s ! k"] by simp
  qed
  have b: "\<forall>k. m \<le> k \<and> k < length (shadeItems s) \<longrightarrow> shadeItems s' ! k = shadeItems s ! k"
  proof (intro allI impI)
    fix k assume k: "m \<le> k \<and> k < length (shadeItems s)"
    then have "\<not> 2 * k + 2 < n" using km [of k] by simp
    then show "shadeItems s' ! k = shadeItems s ! k" using S k by simp
  qed
  have c: "visible_bands s' m = m"
    if h: "(\<forall>i<n. rect_top (gridGeometry ax) \<le> layout ax ! i
                \<and> layout ax ! i \<le> rect_bottom (gridGeometry ax))
          \<and> (\<forall>i. i + 1 < n \<longrightarrow> layout ax ! (i + 1) < layout ax ! i)"
  proof -
    have "ri_visible (shadeItems s' ! k)" if k: "k < m" for k
    proof -
      have lt: "2 * k + 2 < n" "2 * k + 1 < n" using k km [of k] by simp_all
      have "layout ax ! (2 * k + 1 + 1) < layout ax ! (2 * k + 1)" using h lt by simp
      then have "layout ax ! (2 * k + 2) < layout ax ! (2 * k + 1)" by simp
      moreover have "rect_top (gridGeometry ax) \<le> layout ax ! (2 * k + 2)"
        "layout ax ! (2 * k + 1) \<le> rect_bottom (gridGeometry ax)"
        using h lt by simp_all
      ultimately have "0 < rect_height (band_rect ax k)"
        by (simp add: band_rect_def rect_height_def)
      then show ?thesis using a k by simp
    qed
    then show ?thesis
      unfolding visible_bands_def using filter_take_all [of m "shadeItems s'" ri_visible] ms Ls by simp
  qed
  have d: "visible_bands s' m = 0"
    if h: "\<forall>i. i + 1 < n \<longrightarrow> layout ax ! i \<le> layout ax ! (i + 1)"
  proof -
    have "\<not> ri_visible (shadeItems s' ! k)" if k: "k < m" for k
    proof -
      have lt: "2 * k + 1 + 1 < n" using k km [of k] by simp
      then have "layout ax ! (2 * k + 1) \<le> layout ax ! (2 * k + 1 + 1)" using h by blast
      then have "layout ax ! (2 * k + 1) \<le> layout ax ! (2 * k + 2)" by simp
      then have "\<not> 0 < rect_height (band_rect ax k)"
        by (simp add: band_rect_def rect_height_def)
      then show ?thesis using a k by simp
    qed
    then show ?thesis
      unfolding visible_bands_def using filter_take_none [of m "shadeItems s'" ri_visible] ms Ls by simp
  qed
  show ?thesis
    unfolding n_def [symmetric] m_def [symmetric] using run a b c d
    by (intro exI [of _ s'] conjI impI) simp_all
qed

theorem shading_bands_witness:
  "layout (example_axis [90, 60, 30, 10] [''1'', ''2'', ''3'', ''4''] False) \<noteq> []
   \<and> well_sized (example_axis [90, 60, 30, 10] [''1'', ''2'', ''3'', ''4''] False) example_items4
   \<and> (\<exists>s'. updateGeometry (example_axis [90, 60, 30, 10] [''1'', ''2'', ''3'', ''4''] False)
              example_items4 = Some s'
         \<and> shadeItems s' = [\<lparr>ri_rect = \<lparr>r_x = 50, r_y = 30, r_w = 200, r_h = 30\<rparr>, ri_visible = True\<rparr>]
         \<and> visible_bands s' 1 = 1)"
proof -
  have h: "layout (example_axis [90, 60, 30, 10] [''1'', ''2'', ''3'', ''4''] False) \<noteq> []"
    "well_sized (example_axis [90, 60, 30, 10] [''1'', ''2'', ''3'', ''4''] False) example_items4"
    by (simp_all add: example_axis_def well_sized_def grid_items_needed_def example_items4_def)
  from shading_bands [OF h]
  obtain s' where s': "updateGeometry (example_axis [90, 60, 30, 10] [''1'', ''2'', ''3'', ''4''] False)
      example_items4 = Some s'"
    by blast
  moreover have "map_option shadeItems
     (updateGeometry (example_axis [90, 60, 30, 10] [''1'', ''2'', ''3'', ''4''] False) example_items4) =
     Some [\<lparr>ri_rect = \<lparr>r_x = 50, r_y = 30, r_w = 200, r_h = 30\<rparr>, ri_visible = True\<rparr>]"
    by (simp add: eval_axis)
  ultimately have "shadeItems s' = [\<lparr>ri_rect = \<lparr>r_x = 50, r_y = 30, r_w = 200, r_h = 30\<rparr>, ri_visible = True\<rparr>]"
    by simp
  then show ?thesis using h s' by (simp add: visible_bands_def)
qed

text \<open>
  Claim C7 as stated fails for increasing tick positions. With the four ticks 10, 20, 30,
  40 inside the grid from 0 to 100, the only band has the height \<open>20 - 30 = -10\<close> and is
  hidden, whereas \<open>(4 - 1) div 2 = 1\<close>.
\<close>
theorem shading_bands_counterexample:
  "sorted_wrt (<) [10, 20, 30, 40 :: real]
   \<and> (length [10, 20, 30, 40 :: real] - 1) div 2 = 1
   \<and> map_option shadeItems
       (updateGeometry (example_axis [10, 20, 30, 40] [''1'', ''2'', ''3'', ''4''] False) example_items4) =
     Some [\<lparr>ri_rect = \<lparr>r_x = 50, r_y = 30, r_w = 200, r_h = - 10\<rparr>, ri_visible = False\<rparr>]"
  by (simp add: ex_shades)

end
